theory Spec2Isabelle
  imports Main
begin

section \<open>Risk scoring (app/utils/scoring.py)\<close>

text \<open>
  A Python \<open>Dict[str, int]\<close> is an association list in insertion order, which is the
  order \<open>items()\<close> yields; the keys of a dict are pairwise distinct. Python's integers
  are unbounded, so counts and scores are \<open>int\<close>.
\<close>

type_synonym severity_counts = "(string \<times> int) list"

definition weights :: "(string \<times> int) list" where
  "weights = [(''critical'', 25), (''high'', 15), (''medium'', 8), (''low'', 3), (''info'', 1)]"

text \<open>The body of the \<open>for severity, count in severity_counts.items()\<close> loop, threaded
  through the running \<open>score\<close>.\<close>

fun score_loop :: "severity_counts \<Rightarrow> int \<Rightarrow> int" where
  "score_loop [] score = score"
| "score_loop ((severity, count) # rest) score =
     score_loop rest
       (case map_of weights severity of
          Some w \<Rightarrow> score - w * count
        | None \<Rightarrow> score)"

definition calculate_risk_score :: "severity_counts \<Rightarrow> int" where
  "calculate_risk_score severity_counts = max 0 (score_loop severity_counts 100)"

definition calculate_security_rating :: "int \<Rightarrow> string" where
  "calculate_security_rating risk_score =
     (if risk_score \<ge> 95 then ''A+''
      else if risk_score \<ge> 90 then ''A''
      else if risk_score \<ge> 85 then ''A-''
      else if risk_score \<ge> 80 then ''B+''
      else if risk_score \<ge> 75 then ''B''
      else if risk_score \<ge> 70 then ''B-''
      else if risk_score \<ge> 65 then ''C+''
      else if risk_score \<ge> 60 then ''C''
      else if risk_score \<ge> 55 then ''C-''
      else if risk_score \<ge> 50 then ''D''
      else ''F'')"

text \<open>\<open>d.get(k, 0)\<close>: the count a histogram gives a severity level, 0 when the key is
  absent.\<close>

definition count_of :: "severity_counts \<Rightarrow> string \<Rightarrow> int" where
  "count_of h k = (case map_of h k of Some c \<Rightarrow> c | None \<Rightarrow> 0)"

text \<open>The weighted penalty of a histogram, as the specification writes it.\<close>

definition penalty :: "severity_counts \<Rightarrow> int" where
  "penalty h = 25 * count_of h ''critical'' + 15 * count_of h ''high''
             + 8 * count_of h ''medium'' + 3 * count_of h ''low'' + 1 * count_of h ''info''"

section \<open>Python strings\<close>

text \<open>
  A Python \<open>str\<close> is modelled as a \<open>string\<close>, a list of characters, and a character is
  a code point from 0 to 255. The character classes and the case mapping below are
  Python's on that whole range (ASCII and Latin-1); text with a code point above 255
  is outside the model.
\<close>

definition newline :: char where
  "newline = CHR 0x0A"

text \<open>\<open>str.isspace\<close> on one character, which is also what \<open>str.strip\<close> removes and the
  class \<open>\s\<close> of \<open>re\<close>: tab, line feed, vertical tab, form feed, carriage return, the
  four separators 0x1C..0x1F, space, next line (0x85) and no-break space (0xA0).\<close>

definition py_isspace :: "char \<Rightarrow> bool" where
  "py_isspace c = (let n = (of_char c :: nat) in
     (9 \<le> n \<and> n \<le> 13) \<or> (28 \<le> n \<and> n \<le> 32) \<or> n = 133 \<or> n = 160)"

text \<open>The class \<open>\d\<close>: the decimal digits, which below 256 are \<open>0\<close> to \<open>9\<close>.\<close>

definition py_isdigit :: "char \<Rightarrow> bool" where
  "py_isdigit c = (let n = (of_char c :: nat) in 48 \<le> n \<and> n \<le> 57)"

text \<open>The class \<open>\w\<close>: the underscore and every alphanumeric character. Below 256 these
  are the ASCII digits and letters, the ordinal indicators (0xAA, 0xBA), the
  superscript digits (0xB2, 0xB3, 0xB9), the micro sign (0xB5), the fractions
  (0xBC..0xBE) and the Latin-1 letters (0xC0..0xFF without the signs 0xD7 and 0xF7).\<close>

definition py_isword :: "char \<Rightarrow> bool" where
  "py_isword c = (let n = (of_char c :: nat) in
     (48 \<le> n \<and> n \<le> 57) \<or> (65 \<le> n \<and> n \<le> 90) \<or> n = 95 \<or> (97 \<le> n \<and> n \<le> 122)
     \<or> n = 170 \<or> n = 178 \<or> n = 179 \<or> n = 181 \<or> n = 185 \<or> n = 186
     \<or> (188 \<le> n \<and> n \<le> 190) \<or> (192 \<le> n \<and> n \<le> 214) \<or> (216 \<le> n \<and> n \<le> 246)
     \<or> 248 \<le> n)"

text \<open>\<open>str.isupper\<close> on one character: \<open>A\<close> to \<open>Z\<close> and the Latin-1 capitals 0xC0..0xDE
  without the multiplication sign 0xD7.\<close>

definition py_isupper :: "char \<Rightarrow> bool" where
  "py_isupper c = (let n = (of_char c :: nat) in
     (65 \<le> n \<and> n \<le> 90) \<or> (192 \<le> n \<and> n \<le> 214) \<or> (216 \<le> n \<and> n \<le> 222))"

text \<open>\<open>s.lower()\<close>: every upper-case character moves 32 code points up, to its
  lower-case form; every other character stays.\<close>

definition lower_char :: "char \<Rightarrow> char" where
  "lower_char c = (if py_isupper c then char_of (of_char c + (32 :: nat)) else c)"

definition py_lower :: "string \<Rightarrow> string" where
  "py_lower s = map lower_char s"

text \<open>\<open>s.title()\<close>: a letter that follows a letter is lower-cased, any other letter is
  upper-cased. The flag says whether the previous character was a letter. The code
  applies \<open>title\<close> only to its own literals (\<open>call\<close>, \<open>delegatecall\<close>, \<open>send\<close>,
  \<open>addition\<close>, \<open>subtraction\<close>, \<open>multiplication\<close>), and the function is written for such
  words of ASCII letters.\<close>

definition lower_letters :: string where
  "lower_letters = ''abcdefghijklmnopqrstuvwxyz''"

definition upper_letters :: string where
  "upper_letters = ''ABCDEFGHIJKLMNOPQRSTUVWXYZ''"

definition title_lower :: "char \<Rightarrow> char" where
  "title_lower c = (case map_of (zip upper_letters lower_letters) c of Some l \<Rightarrow> l | None \<Rightarrow> c)"

definition title_upper :: "char \<Rightarrow> char" where
  "title_upper c = (case map_of (zip lower_letters upper_letters) c of Some u \<Rightarrow> u | None \<Rightarrow> c)"

fun title_from :: "bool \<Rightarrow> string \<Rightarrow> string" where
  "title_from prev_cased [] = []"
| "title_from prev_cased (c # cs) =
     (if c \<in> set upper_letters \<or> c \<in> set lower_letters
      then (if prev_cased then title_lower c else title_upper c) # title_from True cs
      else c # title_from False cs)"

definition py_title :: "string \<Rightarrow> string" where
  "py_title s = title_from False s"

text \<open>\<open>s.startswith(p)\<close>.\<close>

fun startswith :: "string \<Rightarrow> string \<Rightarrow> bool" where
  "startswith s [] = True"
| "startswith [] (p # ps) = False"
| "startswith (c # cs) (p # ps) = (c = p \<and> startswith cs ps)"

text \<open>\<open>sub in s\<close>.\<close>

fun contains :: "string \<Rightarrow> string \<Rightarrow> bool" where
  "contains sub [] = (sub = [])"
| "contains sub (c # cs) = (startswith (c # cs) sub \<or> contains sub cs)"

text \<open>\<open>s.strip()\<close>.\<close>

definition py_strip :: "string \<Rightarrow> string" where
  "py_strip s = rev (dropWhile py_isspace (rev (dropWhile py_isspace s)))"

text \<open>\<open>s.split('\n')\<close>: never empty; a string without line feed is its own single line.\<close>

fun split_on :: "char \<Rightarrow> string \<Rightarrow> string list" where
  "split_on sep [] = [[]]"
| "split_on sep (c # cs) =
     (if c = sep then [] # split_on sep cs
      else (case split_on sep cs of [] \<Rightarrow> [[c]] | l # ls \<Rightarrow> (c # l) # ls))"

definition split_lines :: "string \<Rightarrow> string list" where
  "split_lines code = split_on newline code"

text \<open>\<open>'\n'.join(ls)\<close>.\<close>

fun join_lines :: "string list \<Rightarrow> string" where
  "join_lines [] = []"
| "join_lines [l] = l"
| "join_lines (l # l' # ls) = l @ newline # join_lines (l' # ls)"

text \<open>\<open>s[a:b]\<close> for integers \<open>a\<close>, \<open>b\<close>: a negative bound counts from the end, and both
  are clipped to the string.\<close>

definition py_slice :: "string \<Rightarrow> int \<Rightarrow> int \<Rightarrow> string" where
  "py_slice s a b =
     (let n = int (length s);
          a' = (if a < 0 then max 0 (a + n) else min a n);
          b' = (if b < 0 then max 0 (b + n) else min b n)
      in take (nat (b' - a')) (drop (nat a') s))"

text \<open>\<open>s.find(sub)\<close>: the index of the first occurrence, \<open>-1\<close> when there is none.\<close>

fun find_from :: "string \<Rightarrow> nat \<Rightarrow> string \<Rightarrow> int" where
  "find_from sub pos [] = (if sub = [] then int pos else - 1)"
| "find_from sub pos (c # cs) =
     (if startswith (c # cs) sub then int pos else find_from sub (Suc pos) cs)"

definition py_find :: "string \<Rightarrow> string \<Rightarrow> int" where
  "py_find s sub = find_from sub 0 s"

text \<open>\<open>s.find(c, start)\<close> for a character \<open>c\<close> and \<open>0 \<le> start\<close>.\<close>

definition py_find_char :: "string \<Rightarrow> char \<Rightarrow> nat \<Rightarrow> int" where
  "py_find_char s c start =
     (if start \<le> length s \<and> c \<in> set (drop start s)
      then int (start + length (takeWhile (\<lambda>x. x \<noteq> c) (drop start s)))
      else - 1)"

text \<open>\<open>s.rfind(c, 0, stop)\<close> for a character \<open>c\<close>: the last index below \<open>stop\<close>.\<close>

definition py_rfind_char :: "string \<Rightarrow> char \<Rightarrow> nat \<Rightarrow> int" where
  "py_rfind_char s c stop =
     (let pre = take stop s in
      if c \<in> set pre
      then int (length pre) - 1 - int (length (takeWhile (\<lambda>x. x \<noteq> c) (rev pre)))
      else - 1)"

text \<open>\<open>code[:pos].count('\n') + 1\<close>: the 1-based line of a position.\<close>

definition line_of_pos :: "string \<Rightarrow> nat \<Rightarrow> nat" where
  "line_of_pos code pos = count_list (take pos code) newline + 1"

text \<open>\<open>int(s)\<close> on a string of decimal digits, and \<open>str(n)\<close> of a natural number.\<close>

definition digit_val :: "char \<Rightarrow> nat" where
  "digit_val c = of_char c - 48"

definition py_int :: "string \<Rightarrow> nat" where
  "py_int s = foldl (\<lambda>acc c. 10 * acc + digit_val c) 0 s"

definition digit_char :: "nat \<Rightarrow> char" where
  "digit_char d = ''0123456789'' ! d"

function py_str :: "nat \<Rightarrow> string" where
  "py_str n = (if n < 10 then [digit_char n] else py_str (n div 10) @ [digit_char (n mod 10)])"
  by pat_completeness auto
termination
  by (relation "measure (\<lambda>n. n)") auto

declare py_str.simps [simp del]

text \<open>\<open>s.replace(old, new)\<close> for a non-empty \<open>old\<close>: the occurrences are replaced left
  to right, without overlap.\<close>

function py_replace :: "string \<Rightarrow> string \<Rightarrow> string \<Rightarrow> string" where
  "py_replace old new [] = []"
| "py_replace old new (c # cs) =
     (if old \<noteq> [] \<and> startswith (c # cs) old
      then new @ py_replace old new (drop (length old) (c # cs))
      else c # py_replace old new cs)"
  by pat_completeness auto
termination
  by (relation "measure (\<lambda>(old, new, s). length s)") (auto simp: neq_Nil_conv)

section \<open>Exceptions\<close>

text \<open>
  An exception object, as far as the code can observe it: the name of its class,
  whether the class derives from \<open>Exception\<close> (\<open>KeyboardInterrupt\<close>, \<open>SystemExit\<close> and
  \<open>GeneratorExit\<close> derive from \<open>BaseException\<close> only), and what \<open>str(e)\<close> does, which is
  what formatting \<open>{e}\<close> in an f-string calls: it returns the message, or its \<open>__str__\<close>
  raises another exception.
\<close>

datatype py_exception =
  PyException (exception_class: string) (derives_Exception: bool)
    (str_result: "py_exception + string")

text \<open>\<open>int(s)\<close> as the version parser uses it, on a run of decimal digits: the value,
  or the \<open>ValueError\<close> of CPython's limit of 4300 digits for the conversion of a decimal
  string (leading zeros count). The first branch stands for every string that is no
  plain run of digits; the version pattern never captures one.\<close>

definition int_literal_error :: "string \<Rightarrow> py_exception" where
  "int_literal_error s =
     PyException ''ValueError'' True
       (Inr (''invalid literal for int() with base 10: '' @ [CHR 0x27] @ s @ [CHR 0x27]))"

definition int_limit_error :: "nat \<Rightarrow> py_exception" where
  "int_limit_error n =
     PyException ''ValueError'' True
       (Inr (''Exceeds the limit (4300 digits) for integer string conversion: value has ''
             @ py_str n
             @ '' digits; use sys.set_int_max_str_digits() to increase the limit''))"

definition py_int_str :: "string \<Rightarrow> py_exception + nat" where
  "py_int_str s =
     (if s = [] \<or> \<not> list_all py_isdigit s then Inl (int_literal_error s)
      else if length s > 4300 then Inl (int_limit_error (length s))
      else Inr (py_int s))"

section \<open>Regular expressions (the fragment of Python's \<open>re\<close> the code uses)\<close>

text \<open>
  Character sets: a literal character, \<open>[^c]\<close>, \<open>\w\<close>, \<open>\s\<close>, \<open>\d\<close> and unions of
  these (\<open>[\w\.]\<close>, \<open>[\^~]\<close>). The dot \<open>.\<close> is \<open>NotChr newline\<close>.
\<close>

datatype cset = Chr char | NotChr char | Word | Space | Digit | Or cset cset

fun in_cset :: "cset \<Rightarrow> char \<Rightarrow> bool" where
  "in_cset (Chr a) c = (c = a)"
| "in_cset (NotChr a) c = (c \<noteq> a)"
| "in_cset Word c = py_isword c"
| "in_cset Space c = py_isspace c"
| "in_cset Digit c = py_isdigit c"
| "in_cset (Or a b) c = (in_cset a c \<or> in_cset b c)"

text \<open>
  Patterns: one character of a set, the empty pattern, concatenation, ordered
  alternative \<open>a|b\<close>, greedy repetition \<open>a*\<close>, a numbered capture group and the word
  boundary \<open>\b\<close>.
\<close>

datatype regex = Sym cset | Eps | Seq regex regex | Alt regex regex | Star regex
  | Group nat regex | WordB

text \<open>\<open>a+\<close>, \<open>a?\<close>, a literal string, and a sequence of patterns.\<close>

definition plus :: "regex \<Rightarrow> regex" where
  "plus r = Seq r (Star r)"

definition opt :: "regex \<Rightarrow> regex" where
  "opt r = Alt r Eps"

fun lit :: "string \<Rightarrow> regex" where
  "lit [] = Eps"
| "lit (c # cs) = Seq (Sym (Chr c)) (lit cs)"

fun seqs :: "regex list \<Rightarrow> regex" where
  "seqs [] = Eps"
| "seqs (r # rs) = Seq r (seqs rs)"

text \<open>\<open>\s*\<close>, \<open>\s+\<close>, \<open>\w+\<close> and \<open>\d+\<close>.\<close>

definition ws :: regex where
  "ws = Star (Sym Space)"

definition ws1 :: regex where
  "ws1 = plus (Sym Space)"

definition word1 :: regex where
  "word1 = plus (Sym Word)"

definition digit1 :: regex where
  "digit1 = plus (Sym Digit)"

text \<open>
  The matcher is the backtracking search of \<open>re\<close>: from a state (the groups captured so
  far, the character before the current position, the text still to read) it lists
  every way the pattern can match a prefix of the text, in the order in which the
  backtracking engine tries them: the left alternative before the right one, one more
  round of a repetition before stopping. The engine's match is the head of the list.
  A round of a repetition that consumes nothing is dropped, as the engine does.
\<close>

type_synonym mstate = "(nat \<times> string) list \<times> char option \<times> string"

definition at_word_boundary :: "char option \<Rightarrow> string \<Rightarrow> bool" where
  "at_word_boundary prev s =
     ((case prev of None \<Rightarrow> False | Some c \<Rightarrow> py_isword c)
      \<noteq> (case s of [] \<Rightarrow> False | c # _ \<Rightarrow> py_isword c))"

function bt :: "regex \<Rightarrow> mstate \<Rightarrow> mstate list" where
  "bt (Sym cs) (caps, prev, s) =
     (case s of [] \<Rightarrow> [] | c # rest \<Rightarrow> if in_cset cs c then [(caps, Some c, rest)] else [])"
| "bt Eps st = [st]"
| "bt (Seq a b) st = concat (map (bt b) (bt a st))"
| "bt (Alt a b) st = bt a st @ bt b st"
| "bt (Star a) (caps, prev, s) =
     concat (map (bt (Star a))
       (filter (\<lambda>(caps', prev', s'). length s' < length s) (bt a (caps, prev, s))))
     @ [(caps, prev, s)]"
| "bt (Group n a) (caps, prev, s) =
     map (\<lambda>(caps', prev', s'). ((n, take (length s - length s') s) # caps', prev', s'))
       (bt a (caps, prev, s))"
| "bt WordB (caps, prev, s) = (if at_word_boundary prev s then [(caps, prev, s)] else [])"
  by pat_completeness auto
termination
  by (relation "inv_image (less_than <*lex*> less_than) (\<lambda>(r, caps, prev, s). (size r, length s))")
     auto

text \<open>A match object: \<open>start()\<close>, \<open>end()\<close> and the captured groups (latest first).\<close>

record rmatch =
  m_start :: nat
  m_end :: nat
  m_groups :: "(nat \<times> string) list"

text \<open>\<open>match.group(n)\<close> for \<open>n \<ge> 1\<close>: \<open>None\<close> when the group took no part in the match.\<close>

definition group :: "rmatch \<Rightarrow> nat \<Rightarrow> string option" where
  "group m n = map_of (m_groups m) n"


text \<open>The match of the pattern that starts exactly at the current position, if any.\<close>

definition match_here :: "regex \<Rightarrow> nat \<Rightarrow> char option \<Rightarrow> string \<Rightarrow> rmatch option" where
  "match_here r pos prev s =
     (case bt r ([], prev, s) of
        [] \<Rightarrow> None
      | (caps, _, rest) # _ \<Rightarrow>
          Some \<lparr>m_start = pos, m_end = pos + (length s - length rest), m_groups = caps\<rparr>)"

text \<open>\<open>re.search\<close>: the match at the leftmost position that has one.\<close>

fun search_from :: "regex \<Rightarrow> nat \<Rightarrow> char option \<Rightarrow> string \<Rightarrow> rmatch option" where
  "search_from r pos prev [] = match_here r pos prev []"
| "search_from r pos prev (c # cs) =
     (case match_here r pos prev (c # cs) of
        None \<Rightarrow> search_from r (Suc pos) (Some c) cs
      | Some m \<Rightarrow> Some m)"

definition re_search :: "regex \<Rightarrow> string \<Rightarrow> rmatch option" where
  "re_search r s = search_from r 0 None s"

definition matches :: "regex \<Rightarrow> string \<Rightarrow> bool" where
  "matches r s = (re_search r s \<noteq> None)"

text \<open>
  \<open>re.finditer\<close>: the successive non-overlapping matches, left to right. \<open>resume\<close> is the
  position where the search may start again (the end of the previous match). After an
  empty match the search moves one character on; no pattern of this code matches the
  empty string.
\<close>

fun finditer_from :: "regex \<Rightarrow> nat \<Rightarrow> nat \<Rightarrow> char option \<Rightarrow> string \<Rightarrow> rmatch list" where
  "finditer_from r pos resume prev [] =
     (if pos < resume then []
      else (case match_here r pos prev [] of None \<Rightarrow> [] | Some m \<Rightarrow> [m]))"
| "finditer_from r pos resume prev (c # cs) =
     (if pos < resume then finditer_from r (Suc pos) resume (Some c) cs
      else (case match_here r pos prev (c # cs) of
              None \<Rightarrow> finditer_from r (Suc pos) resume (Some c) cs
            | Some m \<Rightarrow> m # finditer_from r (Suc pos) (max (m_end m) (Suc pos)) (Some c) cs))"

definition re_finditer :: "regex \<Rightarrow> string \<Rightarrow> rmatch list" where
  "re_finditer r s = finditer_from r 0 0 None s"

section \<open>Findings and the code-structure helpers (base_detector.py, ast_utils.py)\<close>

text \<open>
  The finding dictionary of \<open>BaseDetector.create_finding\<close>. The prose fields
  (\<open>description\<close>, \<open>recommendation\<close>, \<open>fixed_code\<close>, \<open>exploit_scenario\<close>, \<open>references\<close>)
  are fixed or interpolated text that nothing in the engine reads back; they are left out
  of the record. Every other key is a field.
\<close>

record finding =
  rule_id :: string
  title :: string
  severity :: string
  category :: string
  line_number :: "nat option"
  function_name :: "string option"
  code_snippet :: "string option"
  cwe_id :: "string option"
  swc_id :: "string option"
  detected_by :: string
  confidence :: int

text \<open>\<open>create_finding\<close>; the first two arguments are \<open>self.rule_id\<close> and
  \<open>self.severity\<close> of the detector that calls it.\<close>

definition create_finding ::
  "string \<Rightarrow> string \<Rightarrow> string \<Rightarrow> nat option \<Rightarrow> string option \<Rightarrow> string option
   \<Rightarrow> string option \<Rightarrow> string option \<Rightarrow> finding" where
  "create_finding self_rule_id self_severity ttl line_num fn_name snippet cwe swc =
     \<lparr>rule_id = self_rule_id, title = ttl, severity = self_severity,
      category = ''security'', line_number = line_num, function_name = fn_name,
      code_snippet = snippet, cwe_id = cwe, swc_id = swc,
      detected_by = ''static'', confidence = 90\<rparr>"

text \<open>\<open>get_line_context\<close>: the lines around a 1-based line number.\<close>

definition get_line_context :: "string \<Rightarrow> nat \<Rightarrow> nat \<Rightarrow> string" where
  "get_line_context code line_num context_lines =
     (let lines = split_lines code;
          start = line_num - context_lines - 1;
          stop = min (length lines) (line_num + context_lines)
      in join_lines (take (stop - start) (drop start lines)))"

text \<open>The pattern \<open>function\s+(\w+)\<close> and the backwards search for the enclosing
  function that three detectors share: \<open>for k in range(i, -1, -1)\<close>, first hit wins.
  It is only ever called with \<open>i\<close> an index of \<open>lines\<close>.\<close>

definition function_name_pattern :: regex where
  "function_name_pattern = seqs [lit ''function'', ws1, Group 1 word1]"

fun enclosing_function :: "string list \<Rightarrow> nat \<Rightarrow> string option" where
  "enclosing_function lines 0 =
     (case re_search function_name_pattern (lines ! 0) of
        Some m \<Rightarrow> group m 1
      | None \<Rightarrow> None)"
| "enclosing_function lines (Suc k) =
     (case re_search function_name_pattern (lines ! Suc k) of
        Some m \<Rightarrow> group m 1
      | None \<Rightarrow> enclosing_function lines k)"







section \<open>TxOriginDetector (tx_origin_detector.py)\<close>

definition tx_origin_patterns :: "regex list" where
  "tx_origin_patterns =
     [seqs [lit ''require'', ws, lit ''('', ws, lit ''tx.origin'', ws, lit ''==''],
      seqs [lit ''require'', ws, lit ''('', ws, lit ''tx.origin'', ws, lit ''!=''],
      seqs [lit ''if'', ws, lit ''('', ws, lit ''tx.origin'', ws, lit ''==''],
      seqs [lit ''if'', ws, lit ''('', ws, lit ''tx.origin'', ws, lit ''!=''],
      seqs [lit ''tx.origin'', ws, lit ''=='', ws, lit ''owner''],
      seqs [lit ''tx.origin'', ws, lit ''=='', ws, lit ''admin'']]"

text \<open>The inner \<open>for pattern in tx_origin_patterns\<close> loop on line \<open>i\<close> (0-based): the
  first pattern that matches appends one finding and breaks.\<close>

fun tx_origin_try :: "string \<Rightarrow> string list \<Rightarrow> nat \<Rightarrow> string \<Rightarrow> regex list \<Rightarrow> finding list" where
  "tx_origin_try code lines i line [] = []"
| "tx_origin_try code lines i line (pattern # rest) =
     (if matches pattern line
      then [create_finding ''SEN-005'' ''high''
              ''Dangerous Use of tx.origin for Authentication''
              (Some (i + 1)) (enclosing_function lines i)
              (Some (get_line_context code (i + 1) 2))
              (Some ''CWE-477'') (Some ''SWC-115'')]
      else tx_origin_try code lines i line rest)"

definition TxOriginDetector_detect :: "string \<Rightarrow> string \<Rightarrow> string option \<Rightarrow> finding list" where
  "TxOriginDetector_detect code language compiler_version =
     (if language \<noteq> ''solidity'' then []
      else let lines = split_lines code in
        concat (map (\<lambda>(i, line). tx_origin_try code lines i line tx_origin_patterns)
                    (enumerate 0 lines)))"

section \<open>UncheckedCallDetector (unchecked_call_detector.py)\<close>

definition call_patterns :: "(regex \<times> string) list" where
  "call_patterns =
     [(seqs [lit ''.call{'', Star (Sym (NotChr CHR ''}'')), lit ''}('',
             Star (Sym (NotChr CHR '')'')), lit '')''], ''call''),
      (seqs [lit ''.call('', Star (Sym (NotChr CHR '')'')), lit '')''], ''call''),
      (seqs [lit ''.delegatecall('', Star (Sym (NotChr CHR '')'')), lit '')''], ''delegatecall''),
      (seqs [lit ''.send('', Star (Sym (NotChr CHR '')'')), lit '')''], ''send'')]"

text \<open>\<open>\(\s*bool\s+\w+\s*,?\s*\)\<close> and \<open>bool\s+\w+\s*=\<close>.\<close>

definition tuple_capture_pattern :: regex where
  "tuple_capture_pattern =
     seqs [lit ''('', ws, lit ''bool'', ws1, word1, ws, opt (lit '',''), ws, lit '')'']"

definition bool_capture_pattern :: regex where
  "bool_capture_pattern = seqs [lit ''bool'', ws1, word1, ws, lit ''='']"

text \<open>The look-ahead \<open>for j in range(i + 1, min(i + 5, len(lines)))\<close>: some line of the
  window has \<open>require(\<close>, \<open>assert(\<close> or \<open>if(\<close>.\<close>

definition checked_below :: "string list \<Rightarrow> nat \<Rightarrow> bool" where
  "checked_below lines i =
     list_ex (\<lambda>j. contains ''require('' (lines ! j) \<or> contains ''assert('' (lines ! j)
                  \<or> contains ''if('' (lines ! j))
       [i + 1 ..< min (i + 5) (length lines)]"

definition is_checked :: "string list \<Rightarrow> nat \<Rightarrow> string \<Rightarrow> bool" where
  "is_checked lines i line =
     (if matches tuple_capture_pattern line then checked_below lines i
      else if matches bool_capture_pattern line then checked_below lines i
      else if contains ''require('' line \<or> contains ''assert('' line then True
      else False)"

text \<open>The inner \<open>for pattern, call_type in call_patterns\<close> loop on line \<open>i\<close>: a pattern
  that matches an unchecked call appends one finding and breaks; a pattern that matches
  a checked call goes on to the next pattern.\<close>

fun unchecked_call_try ::
  "string \<Rightarrow> string list \<Rightarrow> nat \<Rightarrow> string \<Rightarrow> (regex \<times> string) list \<Rightarrow> finding list" where
  "unchecked_call_try code lines i line [] = []"
| "unchecked_call_try code lines i line ((pattern, call_type) # rest) =
     (if matches pattern line
      then (if \<not> is_checked lines i line
            then [create_finding ''SEN-004'' ''high''
                    (''Unchecked '' @ py_title call_type @ '' Return Value'')
                    (Some (i + 1)) (enclosing_function lines i)
                    (Some (get_line_context code (i + 1) 2))
                    (Some ''CWE-252'') (Some ''SWC-104'')]
            else unchecked_call_try code lines i line rest)
      else unchecked_call_try code lines i line rest)"

definition unchecked_call_line :: "string \<Rightarrow> string list \<Rightarrow> nat \<Rightarrow> string \<Rightarrow> finding list" where
  "unchecked_call_line code lines i line =
     (let stripped_line = py_strip line in
      if startswith stripped_line ''//'' \<or> startswith stripped_line ''/*'' then []
      else unchecked_call_try code lines i line call_patterns)"

definition UncheckedCallDetector_detect :: "string \<Rightarrow> string \<Rightarrow> string option \<Rightarrow> finding list" where
  "UncheckedCallDetector_detect code language compiler_version =
     (if language \<noteq> ''solidity'' then []
      else let lines = split_lines code in
        concat (map (\<lambda>(i, line). unchecked_call_line code lines i line) (enumerate 0 lines)))"

section \<open>ReentrancyDetector (reentrancy_detector.py)\<close>

definition external_call_patterns :: "regex list" where
  "external_call_patterns =
     [lit ''.call{'', lit ''.call('', lit ''.delegatecall('', lit ''.send('', lit ''.transfer('']"

text \<open>The two alternatives of \<open>state_change_pattern\<close>:
  \<open>\w+\[[\w\.]+\]\s*=\<close> (a bracketed assignment) and \<open>\w+\s*=\<close>.\<close>

definition bracketed_assignment :: regex where
  "bracketed_assignment =
     seqs [word1, lit ''['', plus (Sym (Or Word (Chr CHR ''.''))), lit '']'', ws, lit ''='']"

definition plain_assignment :: regex where
  "plain_assignment = seqs [word1, ws, lit ''='']"

definition state_change_pattern :: regex where
  "state_change_pattern = Alt bracketed_assignment plain_assignment"

definition has_external_call :: "string \<Rightarrow> bool" where
  "has_external_call line = list_ex (\<lambda>pattern. matches pattern line) external_call_patterns"

text \<open>The test that stops the look-ahead: the line holds \<open>function \<close> or starts, once
  stripped, with a closing brace.\<close>

definition function_boundary :: "string \<Rightarrow> bool" where
  "function_boundary l = (contains ''function '' l \<or> startswith (py_strip l) ''}'')"

text \<open>The look-ahead \<open>for j in range(i + 1, min(i + 11, len(lines)))\<close> over the indices
  still to visit: the 1-based line of the first state change, \<open>None\<close> when a function
  boundary or the end of the window comes first.\<close>

fun state_change_after :: "string list \<Rightarrow> nat list \<Rightarrow> nat option" where
  "state_change_after lines [] = None"
| "state_change_after lines (j # js) =
     (if function_boundary (lines ! j) then None
      else if matches state_change_pattern (lines ! j) then Some (j + 1)
      else state_change_after lines js)"

definition reentrancy_line :: "string \<Rightarrow> string list \<Rightarrow> nat \<Rightarrow> string \<Rightarrow> finding list" where
  "reentrancy_line code lines i line =
     (if has_external_call line
      then (case state_change_after lines [i + 1 ..< min (i + 11) (length lines)] of
              Some state_change_line \<Rightarrow>
                [create_finding ''SEN-001'' ''critical''
                   ''Potential Reentrancy Vulnerability''
                   (Some (i + 1)) (enclosing_function (split_lines code) i)
                   (Some (get_line_context code (i + 1) 3))
                   (Some ''CWE-841'') (Some ''SWC-107'')]
            | None \<Rightarrow> [])
      else [])"

text \<open>\<open>function\s+(\w+)\([^)]*\)\s+.*payable\<close>.\<close>

definition payable_pattern :: regex where
  "payable_pattern =
     seqs [lit ''function'', ws1, Group 1 word1, lit ''('', Star (Sym (NotChr CHR '')'')),
           lit '')'', ws1, Star (Sym (NotChr newline)), lit ''payable'']"

text \<open>The body of \<open>for match in re.finditer(payable_pattern, code)\<close>.\<close>

definition payable_finding :: "string \<Rightarrow> rmatch \<Rightarrow> finding list" where
  "payable_finding code m =
     (let function_context =
            py_slice code (max 0 (int (m_start m) - 200)) (int (m_end m) + 500)
      in if \<not> contains ''nonReentrant'' function_context
         then (let line_num = line_of_pos code (m_start m) in
               [(create_finding ''SEN-001'' ''critical''
                   ''Missing Reentrancy Guard on Payable Function''
                   (Some line_num) (group m 1)
                   (Some (get_line_context code line_num 2))
                   (Some ''CWE-841'') (Some ''SWC-107''))
                \<lparr>severity := ''high''\<rparr>])
         else [])"

definition ReentrancyDetector_detect :: "string \<Rightarrow> string \<Rightarrow> string option \<Rightarrow> finding list" where
  "ReentrancyDetector_detect code language compiler_version =
     (if language \<noteq> ''solidity'' then []
      else let lines = split_lines code in
        concat (map (\<lambda>(i, line). reentrancy_line code lines i line) (enumerate 0 lines))
        @ concat (map (payable_finding code) (re_finditer payable_pattern code)))"

section \<open>IntegerOverflowDetector (integer_overflow_detector.py)\<close>

text \<open>\<open>pragma\s+solidity\s+[\^~]?(\d+\.\d+\.\d+)\<close>.\<close>

definition version_pattern :: regex where
  "version_pattern =
     seqs [lit ''pragma'', ws1, lit ''solidity'', ws1,
           opt (Sym (Or (Chr CHR ''^'') (Chr CHR ''~''))),
           Group 1 (seqs [digit1, lit ''.'', digit1, lit ''.'', digit1])]"

text \<open>\<open>major, minor, _ = map(int, version.split('.'))\<close>: the three components are
  converted in order, and a conversion that raises ends the unpacking. The group always
  holds three runs of digits, so the unpacking itself cannot fail; the last branch
  stands for the \<open>ValueError\<close> of a wrong number of components.\<close>

definition unpack_error :: py_exception where
  "unpack_error =
     PyException ''ValueError'' True (Inr ''not enough values to unpack (expected 3)'')"

definition parse_version :: "string \<Rightarrow> py_exception + nat \<times> nat" where
  "parse_version version =
     (case split_on CHR ''.'' version of
        [a, b, c] \<Rightarrow>
          (case py_int_str a of
             Inl e \<Rightarrow> Inl e
           | Inr major \<Rightarrow>
               (case py_int_str b of
                  Inl e \<Rightarrow> Inl e
                | Inr minor \<Rightarrow>
                    (case py_int_str c of
                       Inl e \<Rightarrow> Inl e
                     | Inr patch \<Rightarrow> Inr (major, minor))))
      | _ \<Rightarrow> Inl unpack_error)"

definition unchecked_pattern :: regex where
  "unchecked_pattern = seqs [lit ''unchecked'', ws, lit ''{'']"

text \<open>The body of \<open>for match in re.finditer(unchecked_pattern, code)\<close>.\<close>

definition unchecked_finding :: "string \<Rightarrow> rmatch \<Rightarrow> finding" where
  "unchecked_finding code m =
     (let line_num = line_of_pos code (m_start m) in
      (create_finding ''SEN-003'' ''high'' ''Unchecked Math Operations''
         (Some line_num) None (Some (get_line_context code line_num 4))
         (Some ''CWE-190'') (Some ''SWC-101''))
      \<lparr>severity := ''medium''\<rparr>)"

definition arithmetic_patterns :: "(regex \<times> string) list" where
  "arithmetic_patterns =
     [(seqs [word1, ws, lit ''+='', ws, word1], ''addition''),
      (seqs [word1, ws, lit ''-='', ws, word1], ''subtraction''),
      (seqs [word1, ws, lit ''*='', ws, word1], ''multiplication''),
      (seqs [word1, ws, lit ''='', ws, word1, ws, lit ''+'', ws, word1], ''addition''),
      (seqs [word1, ws, lit ''='', ws, word1, ws, lit ''-'', ws, word1], ''subtraction''),
      (seqs [word1, ws, lit ''='', ws, word1, ws, lit ''*'', ws, word1], ''multiplication'')]"

text \<open>The comment test on a match:
  \<open>line_start = code.rfind('\n', 0, match.start()) + 1\<close>,
  \<open>line = code[line_start:code.find('\n', match.start())]\<close>, and the match is skipped when
  \<open>'//' in line and line.index('//') < match.start() - line_start\<close>.\<close>

definition in_line_comment :: "string \<Rightarrow> rmatch \<Rightarrow> bool" where
  "in_line_comment code m =
     (let line_start = py_rfind_char code newline (m_start m) + 1;
          line = py_slice code line_start (py_find_char code newline (m_start m))
      in contains ''//'' line \<and> py_find line ''//'' < int (m_start m) - line_start)"

text \<open>The inner \<open>for match in re.finditer(pattern, code)\<close> loop of one arithmetic
  pattern: matches in comments are skipped (\<open>continue\<close>); the first other match appends
  a finding and breaks out of this loop.\<close>

fun arithmetic_matches :: "string \<Rightarrow> string \<Rightarrow> rmatch list \<Rightarrow> finding list" where
  "arithmetic_matches code operation [] = []"
| "arithmetic_matches code operation (m # ms) =
     (if in_line_comment code m then arithmetic_matches code operation ms
      else (let line_num = line_of_pos code (m_start m) in
            [create_finding ''SEN-003'' ''high''
               (''Potential Integer Overflow in '' @ py_title operation)
               (Some line_num) None (Some (get_line_context code line_num 2))
               (Some ''CWE-190'') (Some ''SWC-101'')]))"

text \<open>The part of \<open>detect\<close> below the version test: the scan for Solidity before
  0.8.0.\<close>

definition legacy_arithmetic_scan :: "string \<Rightarrow> finding list" where
  "legacy_arithmetic_scan code =
     (let uses_safemath = (contains ''SafeMath'' code \<or> contains ''using SafeMath for'' code)
      in if \<not> uses_safemath
         then concat (map (\<lambda>(pattern, operation).
                arithmetic_matches code operation (re_finditer pattern code))
                arithmetic_patterns)
         else [])"

text \<open>\<open>detect\<close>: its findings, or the exception that the version parser raised.\<close>

definition IntegerOverflowDetector_detect ::
  "string \<Rightarrow> string \<Rightarrow> string option \<Rightarrow> py_exception + finding list" where
  "IntegerOverflowDetector_detect code language compiler_version =
     (if language \<noteq> ''solidity'' then Inr []
      else (case re_search version_pattern code of
              Some version_match \<Rightarrow>
                (case parse_version (case group version_match 1 of Some v \<Rightarrow> v | None \<Rightarrow> []) of
                   Inr (major, minor) \<Rightarrow>
                     if major > 0 \<or> (major = 0 \<and> minor \<ge> 8)
                     then Inr (map (unchecked_finding code) (re_finditer unchecked_pattern code))
                     else Inr (legacy_arithmetic_scan code)
                 | Inl e \<Rightarrow> Inl e)
            | None \<Rightarrow> Inr (legacy_arithmetic_scan code)))"

section \<open>AccessControlDetector (access_control_detector.py)\<close>







section \<open>StaticAnalyzer (static_analyzer.py)\<close>









section \<open>GasAnalyzer (gas_analyzer.py)\<close>

text \<open>
  One optimization entry. The \<open>recommendation\<close> key is fixed or interpolated prose that
  nothing reads back and is left out; every other key is a field (\<open>opt_savings\<close> is the
  key \<open>savings\<close>, and so on).
\<close>

record gas_optimization =
  opt_issue :: string
  opt_line :: nat
  opt_current_cost :: string
  opt_optimized_cost :: string
  opt_savings :: string

record gas_report =
  total_estimated_gas :: "nat option"
  optimizations :: "gas_optimization list"
  potential_savings :: string

text \<open>\<open>_detect_storage_in_loops\<close>: a line with \<open>for(\<close> or \<open>for (\<close>, and in the lines
  \<open>range(i + 1, min(i + 15, len(lines)))\<close> one with \<open>\w+\[\w+\]\<close> or \<open>storage\<close>.\<close>

definition storage_access_pattern :: regex where
  "storage_access_pattern = seqs [word1, lit ''['', word1, lit '']'']"

definition storage_in_loop_line :: "string list \<Rightarrow> nat \<Rightarrow> string \<Rightarrow> gas_optimization list" where
  "storage_in_loop_line lines i l =
     (if contains ''for('' l \<or> contains ''for ('' l
      then (if list_ex (\<lambda>j. matches storage_access_pattern (lines ! j)
                             \<or> contains ''storage'' (lines ! j))
                 [i + 1 ..< min (i + 15) (length lines)]
            then [\<lparr>opt_issue = ''Storage read inside loop'', opt_line = i + 1,
                   opt_current_cost = replicate 2100 CHR ''n'' @ '' gas (SLOAD per iteration)'',
                   opt_optimized_cost = ''2100 gas (single SLOAD)'',
                   opt_savings = ''2100 * (n-1) gas''\<rparr>]
            else [])
      else [])"

definition detect_storage_in_loops :: "string \<Rightarrow> gas_optimization list" where
  "detect_storage_in_loops code =
     (let lines = split_lines code in
      concat (map (\<lambda>(i, l). storage_in_loop_line lines i l) (enumerate 0 lines)))"

text \<open>\<open>_detect_poor_storage_packing\<close>: \<open>uint256\s+\w+;\s*\n\s*uint8\s+\w+;\<close>.\<close>

definition packing_pattern :: regex where
  "packing_pattern =
     seqs [lit ''uint256'', ws1, word1, lit '';'', ws, Sym (Chr newline), ws,
           lit ''uint8'', ws1, word1, lit '';'']"

definition detect_poor_storage_packing :: "string \<Rightarrow> gas_optimization list" where
  "detect_poor_storage_packing code =
     map (\<lambda>m. \<lparr>opt_issue = ''Inefficient storage packing'',
                opt_line = line_of_pos code (m_start m),
                opt_current_cost = ''2 storage slots (40,000 gas)'',
                opt_optimized_cost = ''1 storage slot (20,000 gas)'',
                opt_savings = ''20,000 gas on deployment''\<rparr>)
       (re_finditer packing_pattern code)"

text \<open>\<open>_detect_public_functions\<close>: \<open>function\s+(\w+)\([^)]*\)\s+public\<close>, and the count of
  \<open>re.findall(rf'\b{function_name}\b', code)\<close>.\<close>

definition public_function_pattern :: regex where
  "public_function_pattern =
     seqs [lit ''function'', ws1, Group 1 word1, lit ''('', Star (Sym (NotChr CHR '')'')),
           lit '')'', ws1, lit ''public'']"

definition public_function_entry :: "string \<Rightarrow> rmatch \<Rightarrow> gas_optimization list" where
  "public_function_entry code m =
     (let function_name = (case group m 1 of Some n \<Rightarrow> n | None \<Rightarrow> []);
          line_num = line_of_pos code (m_start m);
          occurrences = length (re_finditer (seqs [WordB, lit function_name, WordB]) code)
      in if occurrences \<le> 2
         then [\<lparr>opt_issue = ''Function '' @ [CHR 0x27] @ function_name @ [CHR 0x27]
                          @ '' can be external instead of public'',
                opt_line = line_num,
                opt_current_cost = ''Higher gas (copies calldata to memory)'',
                opt_optimized_cost = ''Lower gas (reads directly from calldata)'',
                opt_savings = ''~200 gas per call''\<rparr>]
         else [])"

definition detect_public_functions :: "string \<Rightarrow> gas_optimization list" where
  "detect_public_functions code =
     concat (map (public_function_entry code) (re_finditer public_function_pattern code))"

text \<open>\<open>_detect_redundant_initialization\<close>: \<open>uint\s+\w+\s*=\s*0;\<close> and
  \<open>bool\s+\w+\s*=\s*false;\<close>.\<close>

definition redundant_init_patterns :: "(regex \<times> string) list" where
  "redundant_init_patterns =
     [(seqs [lit ''uint'', ws1, word1, ws, lit ''='', ws, lit ''0;''], ''uint''),
      (seqs [lit ''bool'', ws1, word1, ws, lit ''='', ws, lit ''false;''], ''bool'')]"

definition detect_redundant_initialization :: "string \<Rightarrow> gas_optimization list" where
  "detect_redundant_initialization code =
     concat (map (\<lambda>(pattern, var_type).
       map (\<lambda>m. \<lparr>opt_issue = ''Redundant initialization of '' @ var_type @ '' to default value'',
                  opt_line = line_of_pos code (m_start m),
                  opt_current_cost = ''Extra gas for initialization'',
                  opt_optimized_cost = ''No initialization needed'',
                  opt_savings = ''~5 gas''\<rparr>)
         (re_finditer pattern code))
       redundant_init_patterns)"

text \<open>\<open>_detect_string_usage\<close>: \<open>string\s+(public\s+|private\s+|internal\s+)?(\w+)\<close>.\<close>

definition string_usage_pattern :: regex where
  "string_usage_pattern =
     seqs [lit ''string'', ws1,
           opt (Group 1 (Alt (Seq (lit ''public'') ws1)
                  (Alt (Seq (lit ''private'') ws1) (Seq (lit ''internal'') ws1)))),
           Group 2 word1]"

definition detect_string_usage :: "string \<Rightarrow> gas_optimization list" where
  "detect_string_usage code =
     map (\<lambda>m. \<lparr>opt_issue = ''Consider using bytes32 instead of string for short values'',
                opt_line = line_of_pos code (m_start m),
                opt_current_cost = ''Higher gas (dynamic type)'',
                opt_optimized_cost = ''Lower gas (fixed-size type)'',
                opt_savings = ''Variable, typically 1000+ gas''\<rparr>)
       (re_finditer string_usage_pattern code)"

text \<open>\<open>_detect_array_length_in_loops\<close>: \<open>for\s*\([^;]*;\s*\w+\s*<\s*(\w+)\.length\<close>.\<close>

definition array_length_pattern :: regex where
  "array_length_pattern =
     seqs [lit ''for'', ws, lit ''('', Star (Sym (NotChr CHR '';'')), lit '';'', ws, word1, ws,
           lit ''<'', ws, Group 1 word1, lit ''.length'']"

definition detect_array_length_in_loops :: "string \<Rightarrow> gas_optimization list" where
  "detect_array_length_in_loops code =
     map (\<lambda>m. \<lparr>opt_issue = ''Array length '' @ [CHR 0x27]
                          @ (case group m 1 of Some n \<Rightarrow> n | None \<Rightarrow> [])
                          @ ''.length'' @ [CHR 0x27] @ '' called repeatedly in loop'',
                opt_line = line_of_pos code (m_start m),
                opt_current_cost = ''SLOAD or MLOAD per iteration'',
                opt_optimized_cost = ''Single read before loop'',
                opt_savings = ''~100 gas per iteration''\<rparr>)
       (re_finditer array_length_pattern code)"

text \<open>\<open>_extract_gas_value\<close>: the first run of digits \<open>(\d+)\<close> as a number, 0 when the
  string has none.\<close>

definition extract_gas_value :: "string \<Rightarrow> nat" where
  "extract_gas_value savings_str =
     (case re_search (Group 1 digit1) savings_str of
        Some m \<Rightarrow> py_int (case group m 1 of Some d \<Rightarrow> d | None \<Rightarrow> [])
      | None \<Rightarrow> 0)"

definition GasAnalyzer_analyze :: "string \<Rightarrow> string \<Rightarrow> gas_report" where
  "GasAnalyzer_analyze code language =
     (if language \<noteq> ''solidity''
      then \<lparr>total_estimated_gas = None, optimizations = [], potential_savings = ''N/A''\<rparr>
      else
        (let optimizations =
               detect_storage_in_loops code
               @ detect_poor_storage_packing code
               @ detect_public_functions code
               @ detect_redundant_initialization code
               @ detect_string_usage code
               @ detect_array_length_in_loops code;
             total_savings = sum_list (map (\<lambda>opt. extract_gas_value (opt_savings opt)) optimizations)
         in \<lparr>total_estimated_gas = None, optimizations = optimizations,
              potential_savings =
                (if total_savings > 0 then py_str total_savings @ '' gas per transaction''
                 else ''N/A'')\<rparr>))"

section \<open>AIReasoningEngine._normalize_response (reasoning_engine.py)\<close>

text \<open>
  A parsed value is what \<open>json.loads\<close> returns: \<open>None\<close>, a bool, a number, a
  string, a list or a dict with string keys (an association list; the keys of a dict
  are distinct). Numbers are modelled as integers; the function only ever stores or
  copies them. The response handed to \<open>_normalize_response\<close> is a dict, as its
  signature says.
\<close>

datatype json = JNull | JBool bool | JNum int | JStr string | JList "json list"
  | JObj "(string \<times> json) list"

datatype py_error = AttributeError | TypeError

text \<open>\<open>d.get(key, default)\<close> and \<open>d.get(key)\<close>, whose default is \<open>None\<close>.\<close>

definition dict_get :: "(string \<times> json) list \<Rightarrow> string \<Rightarrow> json \<Rightarrow> json" where
  "dict_get d key dflt = (case map_of d key of Some v \<Rightarrow> v | None \<Rightarrow> dflt)"

text \<open>Truthiness, for \<open>a or b\<close>.\<close>

fun py_truthy :: "json \<Rightarrow> bool" where
  "py_truthy JNull = False"
| "py_truthy (JBool b) = b"
| "py_truthy (JNum n) = (n \<noteq> 0)"
| "py_truthy (JStr s) = (s \<noteq> [])"
| "py_truthy (JList xs) = (xs \<noteq> [])"
| "py_truthy (JObj kvs) = (kvs \<noteq> [])"

definition py_or :: "json \<Rightarrow> json \<Rightarrow> json" where
  "py_or a b = (if py_truthy a then a else b)"

text \<open>\<open>v.lower()\<close> on a parsed value: only a string has the method.\<close>

fun json_lower :: "json \<Rightarrow> py_error + string" where
  "json_lower (JStr s) = Inr (py_lower s)"
| "json_lower v = Inl AttributeError"

text \<open>\<open>for vuln in v\<close> on a parsed value: the elements of a list, the characters of a
  string, the keys of a dict; anything else is not iterable.\<close>

fun json_iter :: "json \<Rightarrow> py_error + json list" where
  "json_iter (JList xs) = Inr xs"
| "json_iter (JStr s) = Inr (map (\<lambda>c. JStr [c]) s)"
| "json_iter (JObj kvs) = Inr (map (\<lambda>(k, v). JStr k) kvs)"
| "json_iter v = Inl TypeError"

record normalized_vuln =
  nv_rule_id :: json
  nv_title :: json
  nv_severity :: string
  nv_exploitability :: string
  nv_category :: json
  nv_line_number :: json
  nv_function_name :: json
  nv_description :: json
  nv_exploit_scenario :: json
  nv_recommendation :: json
  nv_fixed_code :: json
  nv_cwe_id :: json
  nv_swc_id :: json
  nv_detected_by :: string
  nv_confidence :: json

record normalized_response =
  nr_summary :: json
  nr_overall_risk :: string
  nr_vulnerabilities :: "normalized_vuln list"
  nr_gas_optimizations :: json
  nr_code_quality :: json
  nr_architectural_issues :: json
  nr_logic_flaws :: json
  nr_best_practice_violations :: json

text \<open>The dict literal \<open>normalized_vuln = {...}\<close> for one element of the loop; \<open>n\<close> is
  \<open>len(normalized['vulnerabilities'])\<close> at that moment. An element that is no dict has
  no \<open>get\<close>.\<close>

fun normalize_vuln :: "nat \<Rightarrow> json \<Rightarrow> py_error + normalized_vuln" where
  "normalize_vuln n (JObj vuln) =
     (case json_lower (dict_get vuln ''severity'' (JStr ''info'')) of
        Inl e \<Rightarrow> Inl e
      | Inr sev \<Rightarrow>
          (case json_lower (dict_get vuln ''exploitability'' (JStr ''moderate'')) of
             Inl e \<Rightarrow> Inl e
           | Inr expl \<Rightarrow>
               Inr \<lparr>nv_rule_id = dict_get vuln ''rule_id'' (JStr (''AI-'' @ py_str (n + 1))),
                    nv_title = dict_get vuln ''title'' (JStr ''Unknown Vulnerability''),
                    nv_severity = sev,
                    nv_exploitability = expl,
                    nv_category = dict_get vuln ''category'' (JStr ''security''),
                    nv_line_number =
                      py_or (dict_get vuln ''line_number'' JNull) (dict_get vuln ''line'' JNull),
                    nv_function_name =
                      py_or (dict_get vuln ''function_name'' JNull) (dict_get vuln ''function'' JNull),
                    nv_description = dict_get vuln ''description'' (JStr ''''),
                    nv_exploit_scenario = dict_get vuln ''exploit_scenario'' JNull,
                    nv_recommendation = dict_get vuln ''recommendation'' JNull,
                    nv_fixed_code = dict_get vuln ''fixed_code'' JNull,
                    nv_cwe_id = dict_get vuln ''cwe_id'' JNull,
                    nv_swc_id = dict_get vuln ''swc_id'' JNull,
                    nv_detected_by = ''ai'',
                    nv_confidence = dict_get vuln ''confidence'' (JNum 85)\<rparr>))"
| "normalize_vuln n v = Inl AttributeError"

text \<open>The loop \<open>for vuln in response.get("vulnerabilities", [])\<close>, appending to the
  records normalized so far.\<close>

fun normalize_vulns :: "normalized_vuln list \<Rightarrow> json list \<Rightarrow> py_error + normalized_vuln list" where
  "normalize_vulns done [] = Inr done"
| "normalize_vulns done (vuln # rest) =
     (case normalize_vuln (length done) vuln of
        Inl e \<Rightarrow> Inl e
      | Inr nv \<Rightarrow> normalize_vulns (done @ [nv]) rest)"

definition normalize_response :: "(string \<times> json) list \<Rightarrow> py_error + normalized_response" where
  "normalize_response response =
     (case json_lower (dict_get response ''overall_risk'' (JStr ''unknown'')) of
        Inl e \<Rightarrow> Inl e
      | Inr risk \<Rightarrow>
          (case json_iter (dict_get response ''vulnerabilities'' (JList [])) of
             Inl e \<Rightarrow> Inl e
           | Inr vulns \<Rightarrow>
               (case normalize_vulns [] vulns of
                  Inl e \<Rightarrow> Inl e
                | Inr normalized_vulns \<Rightarrow>
                    Inr \<lparr>nr_summary = dict_get response ''summary'' (JStr ''''),
                         nr_overall_risk = risk,
                         nr_vulnerabilities = normalized_vulns,
                         nr_gas_optimizations = dict_get response ''gas_optimizations'' (JList []),
                         nr_code_quality =
                           dict_get response ''code_quality''
                             (JObj [(''score'', JNum 0), (''issues'', JList [])]),
                         nr_architectural_issues =
                           dict_get response ''architectural_issues'' (JList []),
                         nr_logic_flaws = dict_get response ''logic_flaws'' (JList []),
                         nr_best_practice_violations =
                           dict_get response ''best_practice_violations'' (JList [])\<rparr>)))"

section \<open>Reading a finding list\<close>

text \<open>The findings that reference a given 1-based line, and the source text with one
  line (0-based index) exchanged.\<close>

definition findings_at :: "nat \<Rightarrow> finding list \<Rightarrow> finding list" where
  "findings_at n fs = filter (\<lambda>f. line_number f = Some n) fs"

definition replace_line :: "string \<Rightarrow> nat \<Rightarrow> string \<Rightarrow> string" where
  "replace_line code i l = join_lines ((split_lines code)[i := l])"

text \<open>The findings of severity critical that reference a given 1-based line.\<close>

definition critical_at :: "nat \<Rightarrow> finding list \<Rightarrow> finding list" where
  "critical_at n fs = filter (\<lambda>f. severity f = ''critical'' \<and> line_number f = Some n) fs"

text \<open>The compiler version the detector reads off the source: the pair
  \<open>(major, minor)\<close> of the first version pragma, \<open>None\<close> when the source has none (or
  when its numbers are too long to convert).\<close>

definition pragma_version :: "string \<Rightarrow> (nat \<times> nat) option" where
  "pragma_version code =
     (case re_search version_pattern code of
        Some version_match \<Rightarrow>
          (case parse_version (case group version_match 1 of Some v \<Rightarrow> v | None \<Rightarrow> []) of
             Inr v \<Rightarrow> Some v
           | Inl e \<Rightarrow> None)
      | None \<Rightarrow> None)"

text \<open>The title and line number of every finding of a detector that returned.\<close>

definition titles_and_lines ::
  "py_exception + finding list \<Rightarrow> py_exception + (string \<times> nat option) list" where
  "titles_and_lines result = map_sum (\<lambda>e. e) (map (\<lambda>f. (title f, line_number f))) result"

text \<open>The sum, over a list of optimization entries, of the number extracted from each
  entry's savings text.\<close>

definition total_savings_of :: "gas_optimization list \<Rightarrow> nat" where
  "total_savings_of opts = sum_list (map (\<lambda>opt. extract_gas_value (opt_savings opt)) opts)"

text \<open>What the normalization promises of the output record \<open>nv\<close> made from the
  vulnerability record \<open>vuln\<close> of a response: \<open>vuln\<close> is a dict; \<open>detected_by\<close> is \<open>ai\<close>;
  the value of \<open>vuln\<close> under the key \<open>severity\<close>, when it has that key, is a string, and
  the severity of \<open>nv\<close> is that string lower-cased, or \<open>info\<close> when \<open>vuln\<close> has no such
  key, and holds no upper-case letter; the confidence of \<open>nv\<close> is the value of \<open>vuln\<close>
  under the key \<open>confidence\<close> (\<open>None\<close> included), or 85 when \<open>vuln\<close> has no such key.\<close>

definition normalized_from :: "json \<Rightarrow> normalized_vuln \<Rightarrow> bool" where
  "normalized_from vuln nv =
     (\<exists>kvs. vuln = JObj kvs
        \<and> nv_detected_by nv = ''ai''
        \<and> (map_of kvs ''severity'' = None \<or> (\<exists>s. map_of kvs ''severity'' = Some (JStr s)))
        \<and> (map_of kvs ''severity'' = None \<longrightarrow> nv_severity nv = ''info'')
        \<and> (\<forall>s. map_of kvs ''severity'' = Some (JStr s) \<longrightarrow> nv_severity nv = py_lower s)
        \<and> (\<forall>c \<in> set (nv_severity nv). \<not> py_isupper c)
        \<and> (map_of kvs ''confidence'' = None \<longrightarrow> nv_confidence nv = JNum 85)
        \<and> (\<forall>c. map_of kvs ''confidence'' = Some c \<longrightarrow> nv_confidence nv = c))"

text \<open>The responses on which the normalization returns: \<open>overall_risk\<close>, and the
  \<open>severity\<close> and \<open>exploitability\<close> of every vulnerability record, are strings where
  they are given, and \<open>vulnerabilities\<close>, where given, is a list of dicts.\<close>

definition string_or_absent :: "(string \<times> json) list \<Rightarrow> string \<Rightarrow> bool" where
  "string_or_absent kvs key =
     (case map_of kvs key of None \<Rightarrow> True | Some (JStr s) \<Rightarrow> True | Some _ \<Rightarrow> False)"

definition well_formed_vuln :: "json \<Rightarrow> bool" where
  "well_formed_vuln vuln =
     (case vuln of
        JObj kvs \<Rightarrow> string_or_absent kvs ''severity'' \<and> string_or_absent kvs ''exploitability''
      | _ \<Rightarrow> False)"

definition well_formed_response :: "(string \<times> json) list \<Rightarrow> bool" where
  "well_formed_response response =
     (string_or_absent response ''overall_risk''
      \<and> (case map_of response ''vulnerabilities'' of
            None \<Rightarrow> True
          | Some (JList vulns) \<Rightarrow> list_all well_formed_vuln vulns
          | Some _ \<Rightarrow> False))"

section \<open>Properties of risk scoring\<close>

lemma score_loop_acc: "score_loop h s = s + score_loop h 0"
proof (induction h arbitrary: s)
  case Nil
  show ?case by simp
next
  case (Cons p h)
  obtain k c where p: "p = (k, c)" by (cases p)
  show ?case
    unfolding p score_loop.simps
    by (subst Cons.IH, subst (2) Cons.IH) (simp split: option.splits)
qed

lemma count_of_Cons:
  "count_of ((k, c) # h) k' = (if k' = k then c else count_of h k')"
  by (simp add: count_of_def)

lemma count_of_absent: "k \<notin> fst ` set h \<Longrightarrow> count_of h k = 0"
  by (simp add: count_of_def map_of_eq_None_iff [THEN iffD2])

lemma score_loop_penalty:
  "distinct (map fst h) \<Longrightarrow> score_loop h 0 = - penalty h"
proof (induction h)
  case Nil
  show ?case by (simp add: penalty_def count_of_def)
next
  case (Cons p h)
  obtain k c where p: "p = (k, c)" by (cases p)
  from Cons.prems p have absent: "k \<notin> fst ` set h" and d: "distinct (map fst h)"
    by simp_all
  have IH: "score_loop h 0 = - penalty h" by (rule Cons.IH [OF d])
  have zero: "count_of h k = 0" by (rule count_of_absent [OF absent])
  have step: "score_loop (p # h) 0 =
      (case map_of weights k of Some w \<Rightarrow> - (w * c) | None \<Rightarrow> 0) - penalty h"
    unfolding p score_loop.simps
    by (subst score_loop_acc) (simp add: IH split: option.splits)
  consider "k = ''critical''" | "k = ''high''" | "k = ''medium''" | "k = ''low''"
    | "k = ''info''"
    | "k \<noteq> ''critical''" "k \<noteq> ''high''" "k \<noteq> ''medium''" "k \<noteq> ''low''" "k \<noteq> ''info''"
    by blast
  then show ?case
  proof cases
    case 1
    with zero show ?thesis
      unfolding step by (simp add: p penalty_def count_of_Cons weights_def)
  next
    case 2
    with zero show ?thesis
      unfolding step by (simp add: p penalty_def count_of_Cons weights_def)
  next
    case 3
    with zero show ?thesis
      unfolding step by (simp add: p penalty_def count_of_Cons weights_def)
  next
    case 4
    with zero show ?thesis
      unfolding step by (simp add: p penalty_def count_of_Cons weights_def)
  next
    case 5
    with zero show ?thesis
      unfolding step by (simp add: p penalty_def count_of_Cons weights_def)
  next
    case 6
    then show ?thesis
      unfolding step by (simp add: p penalty_def count_of_Cons weights_def)
  qed
qed

text \<open>
  C1. For every severity histogram (a dict, so with distinct keys),
  \<open>calculate_risk_score\<close> returns \<open>max(0, 100 - (25*critical + 15*high + 8*medium + 3*low
  + 1*info))\<close>. In particular the all-zero histogram yields 100, and a histogram with
  critical = 4 and every other count zero yields exactly 0. The formula holds for any
  integer counts, so also for the non-negative ones of a histogram; a level the dict does
  not mention counts as 0 and a key that is no severity level is ignored.
\<close>

theorem calculate_risk_score_formula:
  assumes "distinct (map fst h)"
  shows "calculate_risk_score h = max 0 (100 - penalty h)
    \<and> (penalty h = 0 \<longrightarrow> calculate_risk_score h = 100)
    \<and> (count_of h ''critical'' = 4 \<and> count_of h ''high'' = 0 \<and> count_of h ''medium'' = 0
         \<and> count_of h ''low'' = 0 \<and> count_of h ''info'' = 0
         \<longrightarrow> calculate_risk_score h = 0)"
proof -
  have "score_loop h 100 = 100 + score_loop h 0" by (rule score_loop_acc)
  then have 1: "calculate_risk_score h = max 0 (100 - penalty h)"
    by (simp add: calculate_risk_score_def score_loop_penalty [OF assms])
  show ?thesis
    unfolding 1 by (simp add: penalty_def)
qed

theorem calculate_risk_score_formula_witness:
  "calculate_risk_score [(''critical'', 4), (''high'', 0), (''medium'', 0), (''low'', 0), (''info'', 0)] = 0
   \<and> calculate_risk_score [(''critical'', 0), (''high'', 0), (''medium'', 0), (''low'', 0), (''info'', 0)] = 100
   \<and> calculate_risk_score [(''critical'', 1), (''high'', 2), (''medium'', 0), (''low'', 1), (''info'', 3)] = 39"
  using calculate_risk_score_formula
      [of "[(''critical'', 4), (''high'', 0), (''medium'', 0), (''low'', 0), (''info'', 0)]"]
    calculate_risk_score_formula
      [of "[(''critical'', 0), (''high'', 0), (''medium'', 0), (''low'', 0), (''info'', 0)]"]
    calculate_risk_score_formula
      [of "[(''critical'', 1), (''high'', 2), (''medium'', 0), (''low'', 1), (''info'', 3)]"]
  by (simp add: penalty_def count_of_def)

text \<open>
  C2. \<open>calculate_security_rating\<close> is total (a HOL function of every integer score) and
  its grade is fixed by the band the score lies in: at least 95 gives A+, 90..94 A,
  85..89 A-, 80..84 B+, 75..79 B, 70..74 B-, 65..69 C+, 60..64 C, 55..59 C-, 50..54 D, and
  anything lower F. The rating of an audit is computed from the score alone: two
  histograms with the same risk score get the same rating, whatever their counts.
\<close>

theorem calculate_security_rating_bands:
  "(95 \<le> s \<longrightarrow> calculate_security_rating s = ''A+'')
   \<and> (90 \<le> s \<and> s < 95 \<longrightarrow> calculate_security_rating s = ''A'')
   \<and> (85 \<le> s \<and> s < 90 \<longrightarrow> calculate_security_rating s = ''A-'')
   \<and> (80 \<le> s \<and> s < 85 \<longrightarrow> calculate_security_rating s = ''B+'')
   \<and> (75 \<le> s \<and> s < 80 \<longrightarrow> calculate_security_rating s = ''B'')
   \<and> (70 \<le> s \<and> s < 75 \<longrightarrow> calculate_security_rating s = ''B-'')
   \<and> (65 \<le> s \<and> s < 70 \<longrightarrow> calculate_security_rating s = ''C+'')
   \<and> (60 \<le> s \<and> s < 65 \<longrightarrow> calculate_security_rating s = ''C'')
   \<and> (55 \<le> s \<and> s < 60 \<longrightarrow> calculate_security_rating s = ''C-'')
   \<and> (50 \<le> s \<and> s < 55 \<longrightarrow> calculate_security_rating s = ''D'')
   \<and> (s < 50 \<longrightarrow> calculate_security_rating s = ''F'')
   \<and> calculate_security_rating s \<in>
        {''A+'', ''A'', ''A-'', ''B+'', ''B'', ''B-'', ''C+'', ''C'', ''C-'', ''D'', ''F''}
   \<and> (calculate_risk_score h1 = calculate_risk_score h2 \<longrightarrow>
        calculate_security_rating (calculate_risk_score h1)
        = calculate_security_rating (calculate_risk_score h2))"
  unfolding calculate_security_rating_def by simp

theorem calculate_security_rating_bands_witness:
  "calculate_security_rating 100 = ''A+''
   \<and> calculate_security_rating 92 = ''A''
   \<and> calculate_security_rating 85 = ''A-''
   \<and> calculate_security_rating 84 = ''B+''
   \<and> calculate_security_rating 75 = ''B''
   \<and> calculate_security_rating 70 = ''B-''
   \<and> calculate_security_rating 69 = ''C+''
   \<and> calculate_security_rating 60 = ''C''
   \<and> calculate_security_rating 57 = ''C-''
   \<and> calculate_security_rating 50 = ''D''
   \<and> calculate_security_rating 49 = ''F''
   \<and> calculate_security_rating (- 3) = ''F''
   \<and> calculate_security_rating (calculate_risk_score [(''high'', 1), (''low'', 5)])
     = calculate_security_rating (calculate_risk_score [(''critical'', 1), (''info'', 5)])"
  using calculate_security_rating_bands [of 100 "[]" "[]"]
    calculate_security_rating_bands [of 92 "[]" "[]"]
    calculate_security_rating_bands [of 85 "[]" "[]"]
    calculate_security_rating_bands [of 84 "[]" "[]"]
    calculate_security_rating_bands [of 75 "[]" "[]"]
    calculate_security_rating_bands [of 70 "[]" "[]"]
    calculate_security_rating_bands [of 69 "[]" "[]"]
    calculate_security_rating_bands [of 60 "[]" "[]"]
    calculate_security_rating_bands [of 57 "[]" "[]"]
    calculate_security_rating_bands [of 50 "[]" "[]"]
    calculate_security_rating_bands [of 49 "[]" "[]"]
    calculate_security_rating_bands [of "- 3" "[]" "[]"]
    calculate_security_rating_bands
      [of 0 "[(''high'', 1), (''low'', 5)]" "[(''critical'', 1), (''info'', 5)]"]
  by (simp add: calculate_risk_score_def weights_def)

section \<open>Properties of lines and per-line scans\<close>

lemma split_on_nonempty: "split_on sep s \<noteq> []"
  by (induction s) (auto split: list.splits)

lemma split_on_no_sep: "l \<in> set (split_on sep s) \<Longrightarrow> sep \<notin> set l"
  by (induction s arbitrary: l) (auto split: list.splits if_splits)

lemma split_on_line: "sep \<notin> set l \<Longrightarrow> split_on sep l = [l]"
  by (induction l) auto

lemma split_on_append:
  "sep \<notin> set l \<Longrightarrow> split_on sep (l @ sep # s) = l # split_on sep s"
  by (induction l) (auto split: list.splits)

lemma split_lines_join:
  "ls \<noteq> [] \<Longrightarrow> \<forall>l \<in> set ls. newline \<notin> set l \<Longrightarrow> split_lines (join_lines ls) = ls"
proof (induction ls rule: join_lines.induct)
  case 1
  then show ?case by simp
next
  case (2 l)
  then show ?case by (simp add: split_lines_def split_on_line)
next
  case (3 l l' ls)
  then show ?case by (simp add: split_lines_def split_on_append)
qed

lemma split_lines_replace_line:
  assumes "newline \<notin> set l"
  shows "split_lines (replace_line code i l) = (split_lines code)[i := l]"
proof -
  have "\<forall>x \<in> set ((split_lines code)[i := l]). newline \<notin> set x"
    using assms split_on_no_sep [of _ newline code]
    by (auto simp: split_lines_def dest!: set_update_subset_insert [THEN subsetD])
  moreover have "(split_lines code)[i := l] \<noteq> []"
    by (simp add: split_lines_def split_on_nonempty)
  ultimately show ?thesis
    unfolding replace_line_def by (rule split_lines_join [rotated])
qed

lemma findings_at_enumerate:
  assumes "\<And>i l f. f \<in> set (body i l) \<Longrightarrow> line_number f = Some (Suc i)"
  shows "findings_at (Suc k) (concat (map (\<lambda>(i, l). body i l) (enumerate n ls)))
         = (if n \<le> k \<and> k < n + length ls then body k (ls ! (k - n)) else [])"
proof (induction ls arbitrary: n)
  case Nil
  show ?case by (auto simp: findings_at_def)
next
  case (Cons x xs)
  have here: "findings_at (Suc k) (body n x) = (if n = k then body n x else [])"
    using assms [of _ n x] by (auto simp: findings_at_def filter_empty_conv filter_id_conv)
  have split: "findings_at (Suc k) (concat (map (\<lambda>(i, l). body i l) (enumerate n (x # xs))))
      = findings_at (Suc k) (body n x)
        @ findings_at (Suc k) (concat (map (\<lambda>(i, l). body i l) (enumerate (Suc n) xs)))"
    by (simp add: findings_at_def enumerate_simps)
  show ?case
    unfolding split here Cons.IH
    by (auto simp: nth_Cons' Suc_diff_le)
qed

section \<open>Properties of TxOriginDetector\<close>

lemmas rx_eval =
  matches_def re_search_def match_here_def ws_def ws1_def word1_def digit1_def plus_def
  opt_def py_isspace_def py_isword_def py_isdigit_def at_word_boundary_def newline_def

lemma tx_origin_try_hit:
  "tx_origin_try code lines i ''require(tx.origin == owner);'' tx_origin_patterns
   = [create_finding ''SEN-005'' ''high''
              ''Dangerous Use of tx.origin for Authentication''
              (Some (Suc i)) (enclosing_function lines i)
              (Some (get_line_context code (Suc i) 2))
              (Some ''CWE-477'') (Some ''SWC-115'')]"
  unfolding tx_origin_patterns_def by (simp add: rx_eval)

lemma tx_origin_try_miss:
  "tx_origin_try code lines i ''require(msg.sender == owner);'' tx_origin_patterns = []"
  unfolding tx_origin_patterns_def by (simp add: rx_eval)

lemma tx_origin_try_line:
  "f \<in> set (tx_origin_try code lines i line ps) \<Longrightarrow> line_number f = Some (Suc i)"
  by (induction ps) (auto simp: create_finding_def split: if_splits)

lemma tx_origin_replace:
  "py_replace ''tx.origin'' ''msg.sender'' ''require(tx.origin == owner);''
   = ''require(msg.sender == owner);''"
  by simp

lemma tx_origin_at:
  "findings_at (Suc i) (TxOriginDetector_detect code ''solidity'' cv)
   = (if i < length (split_lines code)
      then tx_origin_try code (split_lines code) i (split_lines code ! i) tx_origin_patterns
      else [])"
  unfolding TxOriginDetector_detect_def Let_def
  by (simp add: findings_at_enumerate [where body = "\<lambda>i l. tx_origin_try code (split_lines code) i l tx_origin_patterns", OF tx_origin_try_line])

text \<open>
  C3. In a solidity source whose line \<open>L\<close> (here \<open>i + 1\<close>, with \<open>i\<close> the 0-based index) is
  \<open>require(tx.origin == owner);\<close>, \<open>TxOriginDetector.detect\<close> produces exactly one finding
  with rule id SEN-005 and line number \<open>L\<close>. For the source in which \<open>tx.origin\<close> is
  replaced by \<open>msg.sender\<close> on that line, it produces no finding whose line number is
  \<open>L\<close>.
\<close>

theorem tx_origin_require_flagged:
  assumes "i < length (split_lines code)"
    and "split_lines code ! i = ''require(tx.origin == owner);''"
  shows "length (filter (\<lambda>f. rule_id f = ''SEN-005'' \<and> line_number f = Some (i + 1))
                   (TxOriginDetector_detect code ''solidity'' cv)) = 1
    \<and> findings_at (i + 1)
        (TxOriginDetector_detect
           (replace_line code i (py_replace ''tx.origin'' ''msg.sender'' (split_lines code ! i)))
           ''solidity'' cv) = []"
proof -
  let ?fs = "TxOriginDetector_detect code ''solidity'' cv"
  have at: "findings_at (Suc i) ?fs = [create_finding ''SEN-005'' ''high''
              ''Dangerous Use of tx.origin for Authentication''
              (Some (Suc i)) (enclosing_function (split_lines code) i)
              (Some (get_line_context code (Suc i) 2))
              (Some ''CWE-477'') (Some ''SWC-115'')]"
    using assms by (simp add: tx_origin_at tx_origin_try_hit)
  have "filter (\<lambda>f. rule_id f = ''SEN-005'' \<and> line_number f = Some (i + 1)) ?fs
      = filter (\<lambda>f. rule_id f = ''SEN-005'') (findings_at (Suc i) ?fs)"
    by (simp add: findings_at_def conj_commute)
  then have one: "length (filter (\<lambda>f. rule_id f = ''SEN-005'' \<and> line_number f = Some (i + 1)) ?fs) = 1"
    unfolding at by (simp add: create_finding_def)
  let ?l' = "''require(msg.sender == owner);''"
  have nl: "newline \<notin> set ?l'" by (simp add: newline_def)
  have lines': "split_lines (replace_line code i ?l') = (split_lines code)[i := ?l']"
    by (rule split_lines_replace_line [OF nl])
  have "findings_at (Suc i) (TxOriginDetector_detect (replace_line code i ?l') ''solidity'' cv) = []"
    using assms(1) by (simp add: tx_origin_at lines' tx_origin_try_miss)
  with one show ?thesis
    by (simp add: assms(2) tx_origin_replace)
qed

theorem tx_origin_require_flagged_witness:
  "length (filter (\<lambda>f. rule_id f = ''SEN-005'' \<and> line_number f = Some 2)
             (TxOriginDetector_detect
                (join_lines [''function kill() public {'', ''require(tx.origin == owner);'', ''}''])
                ''solidity'' None)) = 1
   \<and> findings_at 2
        (TxOriginDetector_detect
           (replace_line
              (join_lines [''function kill() public {'', ''require(tx.origin == owner);'', ''}''])
              1 ''require(msg.sender == owner);'')
           ''solidity'' None) = []"
  using tx_origin_require_flagged
    [of 1 "join_lines [''function kill() public {'', ''require(tx.origin == owner);'', ''}'']" None]
  by (simp add: split_lines_def newline_def numeral_2_eq_2)

section \<open>Properties of UncheckedCallDetector\<close>

lemma startswith_iff: "startswith s p \<longleftrightarrow> (\<exists>post. s = p @ post)"
  by (induction s p rule: startswith.induct) auto

lemma contains_iff: "contains sub s \<longleftrightarrow> (\<exists>pre post. s = pre @ sub @ post)"
proof (induction s)
  case Nil
  show ?case by auto
next
  case (Cons c cs)
  show ?case
  proof
    assume "contains sub (c # cs)"
    then consider "startswith (c # cs) sub" | "contains sub cs" by auto
    then show "\<exists>pre post. c # cs = pre @ sub @ post"
    proof cases
      case 1
      then obtain post where "c # cs = sub @ post" by (auto simp: startswith_iff)
      then have "c # cs = [] @ sub @ post" by simp
      then show ?thesis by blast
    next
      case 2
      then obtain pre post where "cs = pre @ sub @ post" using Cons.IH by blast
      then have "c # cs = (c # pre) @ sub @ post" by simp
      then show ?thesis by blast
    qed
  next
    assume "\<exists>pre post. c # cs = pre @ sub @ post"
    then obtain pre post where eq: "c # cs = pre @ sub @ post" by blast
    show "contains sub (c # cs)"
    proof (cases pre)
      case Nil
      with eq have "startswith (c # cs) sub" by (auto simp: startswith_iff)
      then show ?thesis by simp
    next
      case (Cons d pre')
      with eq have "cs = pre' @ sub @ post" by simp
      then have "contains sub cs" using Cons.IH by blast
      then show ?thesis by simp
    qed
  qed
qed

lemma contains_longer: "contains (a @ b) s \<Longrightarrow> contains a s"
proof -
  assume "contains (a @ b) s"
  then obtain pre post where "s = pre @ (a @ b) @ post" by (auto simp: contains_iff)
  then have "s = pre @ a @ (b @ post)" by simp
  then show ?thesis unfolding contains_iff by blast
qed

lemma unchecked_call_line_tuple:
  "unchecked_call_line code lines i ''(bool success, ) = target.call(\"\");''
   = (if checked_below lines i then []
      else [create_finding ''SEN-004'' ''high'' ''Unchecked Call Return Value''
              (Some (Suc i)) (enclosing_function lines i)
              (Some (get_line_context code (Suc i) 2))
              (Some ''CWE-252'') (Some ''SWC-104'')])"
  by (simp add: unchecked_call_line_def call_patterns_def is_checked_def
    tuple_capture_pattern_def bool_capture_pattern_def py_strip_def py_title_def
    rx_eval title_lower_def title_upper_def lower_letters_def upper_letters_def Let_def)

lemma unchecked_call_try_line:
  "f \<in> set (unchecked_call_try code lines i line ps) \<Longrightarrow> line_number f = Some (Suc i)"
  by (induction ps) (auto simp: create_finding_def split: if_splits)

lemma unchecked_call_line_line:
  "f \<in> set (unchecked_call_line code lines i line) \<Longrightarrow> line_number f = Some (Suc i)"
  by (auto simp: unchecked_call_line_def Let_def dest: unchecked_call_try_line split: if_splits)

lemma unchecked_call_at:
  "findings_at (Suc i) (UncheckedCallDetector_detect code ''solidity'' cv)
   = (if i < length (split_lines code)
      then unchecked_call_line code (split_lines code) i (split_lines code ! i)
      else [])"
  unfolding UncheckedCallDetector_detect_def Let_def
  by (simp add: findings_at_enumerate [where body = "\<lambda>i l. unchecked_call_line code (split_lines code) i l", OF unchecked_call_line_line])

lemma checked_below_iff:
  "checked_below lines i \<longleftrightarrow>
     (\<exists>j. i < j \<and> j < i + 5 \<and> j < length lines
          \<and> (contains ''require('' (lines ! j) \<or> contains ''assert('' (lines ! j)
               \<or> contains ''if('' (lines ! j)))"
  unfolding checked_below_def list_ex_iff by (auto simp: Suc_le_eq)

text \<open>
  C4. In a solidity source whose line \<open>L\<close> (here \<open>i + 1\<close>) is
  \<open>(bool success, ) = target.call("");\<close>: when none of the five lines after \<open>L\<close> holds
  \<open>require\<close>, \<open>assert\<close> or \<open>if\<close>, \<open>UncheckedCallDetector.detect\<close> produces exactly one
  finding that references line \<open>L\<close>; when the line right after \<open>L\<close> is
  \<open>require(success, "failed");\<close>, it produces no finding that references line \<open>L\<close>.
\<close>

theorem unchecked_call_tuple_capture:
  assumes "i < length (split_lines code)"
    and "split_lines code ! i = ''(bool success, ) = target.call(\"\");''"
  shows "((\<forall>j. i < j \<and> j \<le> i + 5 \<and> j < length (split_lines code) \<longrightarrow>
              \<not> contains ''require'' (split_lines code ! j)
            \<and> \<not> contains ''assert'' (split_lines code ! j)
            \<and> \<not> contains ''if'' (split_lines code ! j))
          \<longrightarrow> length (findings_at (i + 1) (UncheckedCallDetector_detect code ''solidity'' cv)) = 1)
       \<and> (i + 1 < length (split_lines code)
            \<and> split_lines code ! (i + 1) = ''require(success, \"failed\");''
          \<longrightarrow> findings_at (i + 1) (UncheckedCallDetector_detect code ''solidity'' cv) = [])"
proof -
  let ?lines = "split_lines code"
  have at: "findings_at (Suc i) (UncheckedCallDetector_detect code ''solidity'' cv)
      = (if checked_below ?lines i then []
         else [create_finding ''SEN-004'' ''high'' ''Unchecked Call Return Value''
                 (Some (Suc i)) (enclosing_function ?lines i)
                 (Some (get_line_context code (Suc i) 2))
                 (Some ''CWE-252'') (Some ''SWC-104'')])"
    using assms by (simp add: unchecked_call_at unchecked_call_line_tuple)
  have quiet_case: "\<not> checked_below ?lines i"
    if quiet: "\<forall>j. i < j \<and> j \<le> i + 5 \<and> j < length ?lines \<longrightarrow>
              \<not> contains ''require'' (?lines ! j)
            \<and> \<not> contains ''assert'' (?lines ! j)
            \<and> \<not> contains ''if'' (?lines ! j)"
  proof
    assume "checked_below ?lines i"
    then obtain j where j: "i < j" "j < i + 5" "j < length ?lines"
      and hit: "contains ''require('' (?lines ! j) \<or> contains ''assert('' (?lines ! j)
               \<or> contains ''if('' (?lines ! j)"
      unfolding checked_below_iff by blast
    have "contains ''require'' (?lines ! j) \<or> contains ''assert'' (?lines ! j)
          \<or> contains ''if'' (?lines ! j)"
      using hit contains_longer [of "''require''" "''(''" "?lines ! j"]
        contains_longer [of "''assert''" "''(''" "?lines ! j"]
        contains_longer [of "''if''" "''(''" "?lines ! j"]
      by auto
    moreover have "i < j \<and> j \<le> i + 5 \<and> j < length ?lines" using j by simp
    ultimately show False using quiet by blast
  qed
  have guarded_case: "checked_below ?lines i"
    if next_line: "i + 1 < length ?lines \<and> ?lines ! (i + 1) = ''require(success, \"failed\");''"
  proof -
    have "contains ''require('' (?lines ! (i + 1))"
      using next_line by simp
    then show ?thesis
      unfolding checked_below_iff using next_line by (intro exI [of _ "i + 1"]) simp
  qed
  show ?thesis
    using quiet_case guarded_case by (auto simp: at)
qed

theorem unchecked_call_tuple_capture_witness:
  "length (findings_at 2
     (UncheckedCallDetector_detect
        (join_lines [''function pay() public {'', ''(bool success, ) = target.call(\"\");'',
                     ''total = 0;'', ''}''])
        ''solidity'' None)) = 1
   \<and> findings_at 2
     (UncheckedCallDetector_detect
        (join_lines [''function pay() public {'', ''(bool success, ) = target.call(\"\");'',
                     ''require(success, \"failed\");'', ''}''])
        ''solidity'' None) = []"
  using unchecked_call_tuple_capture
      [of 1 "join_lines [''function pay() public {'', ''(bool success, ) = target.call(\"\");'',
                     ''total = 0;'', ''}'']" None]
    unchecked_call_tuple_capture
      [of 1 "join_lines [''function pay() public {'', ''(bool success, ) = target.call(\"\");'',
                     ''require(success, \"failed\");'', ''}'']" None]
  by (simp add: split_lines_def newline_def numeral_2_eq_2 less_Suc_eq_le nth_Cons' all_conj_distrib)

section \<open>Properties of ReentrancyDetector\<close>

lemma bt_lit: "\<exists>p. bt (lit w) (caps, prev, w @ post) = [(caps, p, post)]"
proof (induction w arbitrary: prev)
  case Nil
  show ?case by simp
next
  case (Cons c w)
  obtain p where "bt (lit w) (caps, Some c, w @ post) = [(caps, p, post)]"
    using Cons.IH by blast
  then show ?case by simp
qed

lemma match_here_lit: "match_here (lit w) pos prev (w @ post) \<noteq> None"
proof -
  obtain p where "bt (lit w) ([], prev, w @ post) = [([], p, post)]"
    using bt_lit by blast
  then show ?thesis by (simp add: match_here_def)
qed

lemma search_from_here:
  "match_here r pos prev s \<noteq> None \<Longrightarrow> search_from r pos prev s \<noteq> None"
  by (cases s) (auto split: option.splits)

lemma search_from_lit: "search_from (lit w) pos prev (pre @ w @ post) \<noteq> None"
proof (induction pre arbitrary: pos prev)
  case Nil
  show ?case by (simp add: search_from_here match_here_lit)
next
  case (Cons c pre)
  show ?case using Cons.IH by (simp split: option.splits)
qed

lemma contains_matches_lit: "contains w s \<Longrightarrow> matches (lit w) s"
  unfolding contains_iff matches_def re_search_def
  using search_from_lit by blast

lemma match_here_Alt:
  "match_here a pos prev s \<noteq> None \<Longrightarrow> match_here (Alt a b) pos prev s \<noteq> None"
  by (auto simp: match_here_def split: list.splits)

lemma search_from_Alt:
  "search_from a pos prev s \<noteq> None \<Longrightarrow> search_from (Alt a b) pos prev s \<noteq> None"
proof (induction s arbitrary: pos prev)
  case Nil
  then show ?case by (simp add: match_here_Alt)
next
  case (Cons c s)
  show ?case
  proof (cases "match_here a pos prev (c # s)")
    case None
    with Cons.prems have "search_from a (Suc pos) (Some c) s \<noteq> None" by simp
    then have "search_from (Alt a b) (Suc pos) (Some c) s \<noteq> None" by (rule Cons.IH)
    then show ?thesis by (simp split: option.splits)
  next
    case (Some m)
    then have "match_here (Alt a b) pos prev (c # s) \<noteq> None"
      by (intro match_here_Alt) simp
    then show ?thesis by (auto split: option.splits)
  qed
qed

lemma bracketed_is_state_change:
  "matches bracketed_assignment l \<Longrightarrow> matches state_change_pattern l"
  unfolding matches_def re_search_def state_change_pattern_def by (rule search_from_Alt)

lemma call_is_external: "contains ''.call('' l \<Longrightarrow> has_external_call l"
  using contains_matches_lit [of "''.call(''" l]
  by (simp add: has_external_call_def external_call_patterns_def)

lemma state_change_after_found:
  assumes "a \<le> j" "j < b"
    and "matches state_change_pattern (lines ! j)"
    and "\<forall>j'. a \<le> j' \<and> j' \<le> j \<longrightarrow> \<not> function_boundary (lines ! j')"
  shows "state_change_after lines [a..<b] \<noteq> None"
  using assms
proof (induction "j - a" arbitrary: a)
  case 0
  then have "a = j" by simp
  with 0 show ?case by (simp add: upt_conv_Cons)
next
  case (Suc n)
  then have lt: "a < j" "a < b" by simp_all
  have nb: "\<not> function_boundary (lines ! a)" using Suc.prems by simp
  have "state_change_after lines [Suc a..<b] \<noteq> None"
  proof (rule Suc.hyps(1))
    show "n = j - Suc a" using Suc.hyps(2) by simp
    show "Suc a \<le> j" using lt by simp
    show "j < b" using Suc.prems by simp
    show "matches state_change_pattern (lines ! j)" using Suc.prems by simp
    show "\<forall>j'. Suc a \<le> j' \<and> j' \<le> j \<longrightarrow> \<not> function_boundary (lines ! j')"
      using Suc.prems by simp
  qed
  then show ?case using lt nb by (simp add: upt_conv_Cons)
qed

lemma reentrancy_line_props:
  "f \<in> set (reentrancy_line code lines i line) \<Longrightarrow>
     line_number f = Some (Suc i) \<and> severity f = ''critical''"
  by (cases "has_external_call line";
      cases "state_change_after lines [i + 1 ..< min (i + 11) (length lines)]")
     (simp_all add: reentrancy_line_def create_finding_def)

lemma reentrancy_line_line:
  "f \<in> set (reentrancy_line code lines i line) \<Longrightarrow> line_number f = Some (Suc i)"
  by (simp add: reentrancy_line_props)

lemma payable_finding_severity:
  "f \<in> set (payable_finding code m) \<Longrightarrow> severity f = ''high''"
  by (auto simp: payable_finding_def Let_def create_finding_def split: if_splits)

lemma critical_at_reentrancy:
  "critical_at (Suc i) (ReentrancyDetector_detect code ''solidity'' cv)
   = (if i < length (split_lines code)
      then reentrancy_line code (split_lines code) i (split_lines code ! i)
      else [])"
proof -
  let ?A = "concat (map (\<lambda>(i, line). reentrancy_line code (split_lines code) i line)
                     (enumerate 0 (split_lines code)))"
  let ?B = "concat (map (payable_finding code) (re_finditer payable_pattern code))"
  let ?P = "\<lambda>f. severity f = ''critical'' \<and> line_number f = Some (Suc i)"
  have B: "filter ?P ?B = []"
    by (auto simp: filter_empty_conv dest: payable_finding_severity)
  have "\<forall>f \<in> set ?A. severity f = ''critical''"
    by (auto simp: enumerate_eq_zip dest!: reentrancy_line_props)
  then have A: "filter ?P ?A = findings_at (Suc i) ?A"
    unfolding findings_at_def by (intro filter_cong) auto
  have "findings_at (Suc i) ?A
      = (if i < length (split_lines code)
         then reentrancy_line code (split_lines code) i (split_lines code ! i) else [])"
    by (simp add: findings_at_enumerate [where body = "\<lambda>i l. reentrancy_line code (split_lines code) i l", OF reentrancy_line_line])
  then show ?thesis
    unfolding ReentrancyDetector_detect_def Let_def critical_at_def by (simp add: A B)
qed

text \<open>
  C5, as the specification states it: an external call on line \<open>N\<close> followed by a
  bracketed-assignment state write on line \<open>N + k\<close> with no function boundary in between
  gives exactly one critical finding on line \<open>N\<close>. The detector tests every line of its
  look-ahead for a function boundary before it tests it for a state change, the line of
  the write included. Here the write is on the very next line (nothing lies in between),
  the line mentions \<open>function \<close> in a trailing comment, and no finding is produced.
\<close>

theorem reentrancy_write_line_boundary_counterexample:
  "contains ''.call(''
     (split_lines (join_lines [''function withdraw() public {'', ''  external.call(amount);'',
        ''  balances[msg.sender] = 0; // end of function withdraw'', ''}'']) ! 1)
   \<and> matches bracketed_assignment
     (split_lines (join_lines [''function withdraw() public {'', ''  external.call(amount);'',
        ''  balances[msg.sender] = 0; // end of function withdraw'', ''}'']) ! 2)
   \<and> critical_at 2
     (ReentrancyDetector_detect
        (join_lines [''function withdraw() public {'', ''  external.call(amount);'',
           ''  balances[msg.sender] = 0; // end of function withdraw'', ''}''])
        ''solidity'' None) = []"
proof -
  let ?code = "join_lines [''function withdraw() public {'', ''  external.call(amount);'',
        ''  balances[msg.sender] = 0; // end of function withdraw'', ''}'']"
  have ls: "split_lines ?code = [''function withdraw() public {'', ''  external.call(amount);'',
        ''  balances[msg.sender] = 0; // end of function withdraw'', ''}'']"
    by (simp add: split_lines_def newline_def)
  have ext_call: "contains ''.call('' (split_lines ?code ! 1)"
    unfolding ls by simp
  have wr: "matches bracketed_assignment (split_lines ?code ! 2)"
    unfolding ls by (simp add: bracketed_assignment_def rx_eval numeral_2_eq_2)
  have boundary: "function_boundary (split_lines ?code ! 2)"
    unfolding ls by (simp add: function_boundary_def numeral_2_eq_2)
  have "critical_at (Suc 1) (ReentrancyDetector_detect ?code ''solidity'' None)
      = reentrancy_line ?code (split_lines ?code) 1 (split_lines ?code ! 1)"
    unfolding critical_at_reentrancy ls by simp
  also have "\<dots> = []"
    using boundary unfolding reentrancy_line_def ls
    by (simp add: upt_conv_Cons numeral_2_eq_2)
  finally have "critical_at 2 (ReentrancyDetector_detect ?code ''solidity'' None) = []"
    by (simp add: numeral_2_eq_2)
  with ext_call wr show ?thesis by blast
qed

text \<open>
  C5, amended. In a solidity source with an external call expression \<open>external.call(...)\<close>
  on line \<open>N\<close> (here \<open>i + 1\<close>), followed on line \<open>N + k\<close>, \<open>k\<close> at most 10, by a
  bracketed-assignment state write, where no line from \<open>N + 1\<close> up to and including the
  line of the write holds \<open>function \<close> or starts, once stripped, with a closing brace,
  \<open>ReentrancyDetector.detect\<close> produces exactly one finding with severity critical whose
  line number is \<open>N\<close>.
\<close>

theorem reentrancy_call_before_write:
  assumes "contains ''.call('' (split_lines code ! i)"
    and "1 \<le> k" and "k \<le> 10" and "i + k < length (split_lines code)"
    and "matches bracketed_assignment (split_lines code ! (i + k))"
    and "\<forall>j. i < j \<and> j \<le> i + k \<longrightarrow> \<not> function_boundary (split_lines code ! j)"
  shows "length (critical_at (i + 1) (ReentrancyDetector_detect code ''solidity'' cv)) = 1"
proof -
  let ?lines = "split_lines code"
  have i: "i < length ?lines" using assms(4) by simp
  have ext: "has_external_call (?lines ! i)" by (rule call_is_external [OF assms(1)])
  have "state_change_after ?lines [i + 1 ..< min (i + 11) (length ?lines)] \<noteq> None"
  proof (rule state_change_after_found [where j = "i + k"])
    show "i + 1 \<le> i + k" using assms(2) by simp
    show "i + k < min (i + 11) (length ?lines)" using assms(3,4) by simp
    show "matches state_change_pattern (?lines ! (i + k))"
      by (rule bracketed_is_state_change [OF assms(5)])
    show "\<forall>j'. i + 1 \<le> j' \<and> j' \<le> i + k \<longrightarrow> \<not> function_boundary (?lines ! j')"
      using assms(6) by simp
  qed
  then have "length (reentrancy_line code ?lines i (?lines ! i)) = 1"
    using ext by (auto simp: reentrancy_line_def)
  then show ?thesis
    using i by (simp add: critical_at_reentrancy)
qed

theorem reentrancy_call_before_write_witness:
  "length (critical_at 2
     (ReentrancyDetector_detect
        (join_lines [''function withdraw() public {'', ''  external.call(amount);'',
                     ''  uint x;'', ''  balances[msg.sender] = 0;'', ''}''])
        ''solidity'' None)) = 1"
proof -
  let ?code = "join_lines [''function withdraw() public {'', ''  external.call(amount);'',
                     ''  uint x;'', ''  balances[msg.sender] = 0;'', ''}'']"
  have ls: "split_lines ?code = [''function withdraw() public {'', ''  external.call(amount);'',
                     ''  uint x;'', ''  balances[msg.sender] = 0;'', ''}'']"
    by (simp add: split_lines_def newline_def)
  have ext_call: "contains ''.call('' (split_lines ?code ! 1)"
    unfolding ls by simp
  have len: "1 + 2 < length (split_lines ?code)"
    unfolding ls by simp
  have wr: "matches bracketed_assignment (split_lines ?code ! (1 + 2))"
    unfolding ls by (simp add: bracketed_assignment_def rx_eval numeral_3_eq_3)
  have b2: "\<not> function_boundary (split_lines ?code ! 2)"
    unfolding ls by (simp add: function_boundary_def py_strip_def py_isspace_def)
  have b3: "\<not> function_boundary (split_lines ?code ! 3)"
    unfolding ls by (simp add: function_boundary_def py_strip_def py_isspace_def numeral_3_eq_3)
  have inside: "\<forall>j. 1 < j \<and> j \<le> 1 + 2 \<longrightarrow> \<not> function_boundary (split_lines ?code ! j)"
  proof (intro allI impI)
    fix j :: nat
    assume "1 < j \<and> j \<le> 1 + 2"
    then have "j = 2 \<or> j = 3" by arith
    then show "\<not> function_boundary (split_lines ?code ! j)" using b2 b3 by blast
  qed
  have "length (critical_at (1 + 1) (ReentrancyDetector_detect ?code ''solidity'' None)) = 1"
    by (rule reentrancy_call_before_write [OF ext_call _ _ len wr inside]) simp_all
  then show ?thesis by (simp add: numeral_2_eq_2)
qed

section \<open>Properties of IntegerOverflowDetector\<close>

lemma arithmetic_matches_props:
  "f \<in> set (arithmetic_matches code operation ms) \<Longrightarrow>
     title f = ''Potential Integer Overflow in '' @ py_title operation
     \<and> severity f = ''high'' \<and> rule_id f = ''SEN-003''"
  by (induction ms) (auto simp: create_finding_def Let_def split: if_splits)

lemma arithmetic_matches_at_most_one:
  "length (arithmetic_matches code operation ms) \<le> 1"
  by (induction ms) (auto simp: Let_def)

lemma arithmetic_matches_comments:
  "(\<forall>m \<in> set ms. in_line_comment code m) \<Longrightarrow> arithmetic_matches code operation ms = []"
  by (induction ms) auto

lemma arithmetic_matches_reports:
  "\<exists>m \<in> set ms. \<not> in_line_comment code m \<Longrightarrow> arithmetic_matches code operation ms \<noteq> []"
  by (induction ms) (auto simp: Let_def)

lemma arithmetic_matches_source:
  "f \<in> set (arithmetic_matches code operation ms) \<Longrightarrow>
     \<exists>m \<in> set ms. \<not> in_line_comment code m \<and> line_number f = Some (line_of_pos code (m_start m))"
  by (induction ms) (auto simp: create_finding_def Let_def split: if_splits)

lemma legacy_scan_props:
  assumes "f \<in> set (legacy_arithmetic_scan code)"
  shows "title f \<noteq> ''Unchecked Math Operations'' \<and> severity f = ''high''"
proof -
  from assms obtain pattern operation
    where "f \<in> set (arithmetic_matches code operation (re_finditer pattern code))"
    by (auto simp: legacy_arithmetic_scan_def Let_def split: if_splits)
  then have "title f = ''Potential Integer Overflow in '' @ py_title operation"
    and "severity f = ''high''"
    by (simp_all add: arithmetic_matches_props)
  then show ?thesis by simp
qed

lemma contains_using_SafeMath:
  "contains ''using SafeMath for'' code \<Longrightarrow> contains ''SafeMath'' code"
proof -
  assume "contains ''using SafeMath for'' code"
  then obtain pre post where "code = pre @ ''using SafeMath for'' @ post"
    by (auto simp: contains_iff)
  then have "code = (pre @ ''using '') @ ''SafeMath'' @ ('' for'' @ post)" by simp
  then show ?thesis unfolding contains_iff by blast
qed

lemma legacy_scan_unfold:
  "legacy_arithmetic_scan code =
     (if contains ''SafeMath'' code then []
      else concat (map (\<lambda>(pattern, operation).
             arithmetic_matches code operation (re_finditer pattern code))
             arithmetic_patterns))"
  using contains_using_SafeMath [of code] by (auto simp: legacy_arithmetic_scan_def)

text \<open>
  C10. For a solidity source with no parsable \<open>pragma solidity X.Y.Z\<close> declaration
  (the version pattern of the detector matches nowhere in it),
  \<open>IntegerOverflowDetector.detect\<close> returns, and what it returns is the scan it runs for
  a compiler before 0.8.0 (a source whose pragma gives major 0 and a minor below 8 gets
  the same scan): it never reports an \<open>unchecked\<close> block (no finding is titled
  \<open>Unchecked Math Operations\<close>, every finding has severity high), it reports nothing
  when the marker \<open>SafeMath\<close> appears anywhere in the source, and otherwise it flags
  the arithmetic: the first match of each arithmetic pattern that is not in a line
  comment, so at least one finding whenever some pattern has such a match.
\<close>

theorem integer_overflow_without_pragma:
  assumes "re_search version_pattern code = None"
  shows "(\<exists>fs. IntegerOverflowDetector_detect code ''solidity'' cv = Inr fs
          \<and> fs = legacy_arithmetic_scan code
          \<and> (\<forall>f \<in> set fs. title f \<noteq> ''Unchecked Math Operations'' \<and> severity f = ''high'')
          \<and> (contains ''SafeMath'' code \<longrightarrow> fs = [])
          \<and> (\<not> contains ''SafeMath'' code \<longrightarrow>
               fs = concat (map (\<lambda>(pattern, operation).
                      arithmetic_matches code operation (re_finditer pattern code))
                      arithmetic_patterns))
          \<and> (\<not> contains ''SafeMath'' code
               \<and> (\<exists>(pattern, operation) \<in> set arithmetic_patterns.
                     \<exists>m \<in> set (re_finditer pattern code). \<not> in_line_comment code m)
               \<longrightarrow> fs \<noteq> []))
    \<and> (pragma_version code' = Some (0, minor) \<and> minor < 8 \<longrightarrow>
         IntegerOverflowDetector_detect code' ''solidity'' cv
         = Inr (legacy_arithmetic_scan code'))"
proof -
  have eq: "IntegerOverflowDetector_detect code ''solidity'' cv = Inr (legacy_arithmetic_scan code)"
    using assms by (simp add: IntegerOverflowDetector_detect_def)
  have old: "IntegerOverflowDetector_detect code' ''solidity'' cv = Inr (legacy_arithmetic_scan code')"
    if "pragma_version code' = Some (0, minor) \<and> minor < 8"
    using that
    by (auto simp: IntegerOverflowDetector_detect_def pragma_version_def
        split: option.splits sum.splits)
  have flagged: "legacy_arithmetic_scan code \<noteq> []"
    if "\<not> contains ''SafeMath'' code"
      and "\<exists>(pattern, operation) \<in> set arithmetic_patterns.
               \<exists>m \<in> set (re_finditer pattern code). \<not> in_line_comment code m"
  proof -
    from that(2) obtain pattern operation m
      where po: "(pattern, operation) \<in> set arithmetic_patterns"
        and m: "m \<in> set (re_finditer pattern code)" "\<not> in_line_comment code m"
      by blast
    have "arithmetic_matches code operation (re_finditer pattern code) \<noteq> []"
      using m by (intro arithmetic_matches_reports) blast
    then have "\<exists>xs \<in> set arithmetic_patterns.
        (case xs of (pattern, operation) \<Rightarrow>
           arithmetic_matches code operation (re_finditer pattern code)) \<noteq> []"
      using po by (intro bexI [of _ "(pattern, operation)"]) simp_all
    then show ?thesis
      using that(1) unfolding legacy_scan_unfold by simp
  qed
  have props: "\<forall>f \<in> set (legacy_arithmetic_scan code).
      title f \<noteq> ''Unchecked Math Operations'' \<and> severity f = ''high''"
    using legacy_scan_props [of _ code] by blast
  have silent: "contains ''SafeMath'' code \<longrightarrow> legacy_arithmetic_scan code = []"
    by (simp add: legacy_scan_unfold)
  have loud: "\<not> contains ''SafeMath'' code \<longrightarrow>
      legacy_arithmetic_scan code = concat (map (\<lambda>(pattern, operation).
                      arithmetic_matches code operation (re_finditer pattern code))
                      arithmetic_patterns)"
    by (simp add: legacy_scan_unfold)
  show ?thesis
    using eq old flagged props silent loud by blast
qed

theorem integer_overflow_without_pragma_witness:
  "IntegerOverflowDetector_detect ''unchecked { total += amount; }'' ''solidity'' None
     = Inr (legacy_arithmetic_scan ''unchecked { total += amount; }'')
   \<and> map title (legacy_arithmetic_scan ''unchecked { total += amount; }'')
     = [''Potential Integer Overflow in Addition'']
   \<and> IntegerOverflowDetector_detect ''using SafeMath for uint; total += amount;'' ''solidity'' None
     = Inr []
   \<and> pragma_version ''pragma solidity 0.7.6; total += amount;'' = Some (0, 7)
   \<and> IntegerOverflowDetector_detect ''pragma solidity 0.7.6; total += amount;'' ''solidity'' None
     = Inr (legacy_arithmetic_scan ''pragma solidity 0.7.6; total += amount;'')"
proof -
  have h1: "re_search version_pattern ''unchecked { total += amount; }'' = None"
    by (simp add: version_pattern_def rx_eval)
  have h2: "re_search version_pattern ''using SafeMath for uint; total += amount;'' = None"
    by (simp add: version_pattern_def rx_eval)
  have s2: "contains ''SafeMath'' ''using SafeMath for uint; total += amount;''"
    by simp
  have v: "pragma_version ''pragma solidity 0.7.6; total += amount;'' = Some (0, 7)"
    by code_simp
  have t: "map title (legacy_arithmetic_scan ''unchecked { total += amount; }'')
      = [''Potential Integer Overflow in Addition'']"
    by code_simp
  note w1 = integer_overflow_without_pragma
    [OF h1, of None "''pragma solidity 0.7.6; total += amount;''" 7]
  note w2 = integer_overflow_without_pragma [OF h2, of None "[]" 0]
  have a: "IntegerOverflowDetector_detect ''unchecked { total += amount; }'' ''solidity'' None
     = Inr (legacy_arithmetic_scan ''unchecked { total += amount; }'')"
    using w1 [THEN conjunct1] by (elim exE conjE) simp
  have b: "IntegerOverflowDetector_detect ''using SafeMath for uint; total += amount;''
      ''solidity'' None = Inr []"
    using w2 [THEN conjunct1] s2 by (elim exE conjE) simp
  have c: "IntegerOverflowDetector_detect ''pragma solidity 0.7.6; total += amount;'' ''solidity'' None
     = Inr (legacy_arithmetic_scan ''pragma solidity 0.7.6; total += amount;'')"
    using w1 [THEN conjunct2] v by simp
  from a t b v c show ?thesis by (intro conjI)
qed

text \<open>
  C6. For a source with a pragma below 0.8.0 and no SafeMath marker the detector is to
  report at most one finding per line. The \<open>break\<close> that the source comments
  \<open>Only report once per line\<close> leaves the loop over the matches of one pattern, so every
  pattern still reports its own first match: here the second line matches the \<open>+=\<close>
  pattern and the \<open>-=\<close> pattern, and the detector returns two findings with line
  number 2.
\<close>

theorem integer_overflow_same_line_twice:
  "\<not> contains ''SafeMath'' (join_lines [''pragma solidity 0.7.0;'', ''a += b; c -= d;''])
   \<and> pragma_version (join_lines [''pragma solidity 0.7.0;'', ''a += b; c -= d;'']) = Some (0, 7)
   \<and> titles_and_lines
        (IntegerOverflowDetector_detect
           (join_lines [''pragma solidity 0.7.0;'', ''a += b; c -= d;'']) ''solidity'' None)
      = Inr [(''Potential Integer Overflow in Addition'', Some 2),
             (''Potential Integer Overflow in Subtraction'', Some 2)]"
  by code_simp

text \<open>
  The comment test of the same scan does what it is meant to: a finding always comes
  from a match that the test let through, and a pattern whose matches all lie in line
  comments reports nothing.
\<close>

lemma legacy_scan_skips_comments:
  assumes "f \<in> set (legacy_arithmetic_scan code)"
  shows "\<exists>(pattern, operation) \<in> set arithmetic_patterns.
           \<exists>m \<in> set (re_finditer pattern code).
             \<not> in_line_comment code m \<and> line_number f = Some (line_of_pos code (m_start m))"
proof -
  from assms obtain pattern operation
    where po: "(pattern, operation) \<in> set arithmetic_patterns"
      and f: "f \<in> set (arithmetic_matches code operation (re_finditer pattern code))"
    by (auto simp: legacy_arithmetic_scan_def Let_def split: if_splits)
  from arithmetic_matches_source [OF f] po show ?thesis by blast
qed

text \<open>When the source has a version pragma whose numbers \<open>int\<close> cannot convert (a run
  of more than 4300 digits), \<open>detect\<close> raises the \<open>ValueError\<close> of the conversion; this is
  the one way in which the detector raises.\<close>

lemma py_int_str_limit:
  assumes "list_all py_isdigit s" and "4300 < length s"
  shows "py_int_str s = Inl (int_limit_error (length s))"
  using assms by (auto simp: py_int_str_def)

lemma integer_overflow_conversion_raises:
  assumes "re_search version_pattern code = Some version_match"
    and "group version_match 1 = Some v"
    and "parse_version v = Inl e"
  shows "IntegerOverflowDetector_detect code ''solidity'' cv = Inl e"
  using assms by (simp add: IntegerOverflowDetector_detect_def)

lemma integer_overflow_raises_only_on_conversion:
  assumes "IntegerOverflowDetector_detect code language cv = Inl e"
  shows "\<exists>version_match v. re_search version_pattern code = Some version_match
           \<and> parse_version v = Inl e"
  using assms
  by (auto simp: IntegerOverflowDetector_detect_def split: if_splits option.splits sum.splits)

section \<open>Properties of StaticAnalyzer\<close>







section \<open>Properties of GasAnalyzer\<close>

lemma bt_digits:
  assumes "\<forall>c \<in> set ds. py_isdigit c" and "rest = [] \<or> \<not> py_isdigit (hd rest)"
  shows "\<exists>p tl. bt (Star (Sym Digit)) (caps, prev, ds @ rest) = (caps, p, rest) # tl"
  using assms(1)
proof (induction ds arbitrary: prev)
  case Nil
  have "bt (Sym Digit) (caps, prev, rest) = []"
    using assms(2) by (cases rest) auto
  then show ?case by simp
next
  case (Cons d ds)
  then have d: "py_isdigit d" and ds: "\<forall>c \<in> set ds. py_isdigit c" by simp_all
  obtain p tl where "bt (Star (Sym Digit)) (caps, Some d, ds @ rest) = (caps, p, rest) # tl"
    using Cons.IH [OF ds] by blast
  then show ?case using d by simp
qed

lemma match_here_digits:
  assumes "ds \<noteq> []" and "\<forall>c \<in> set ds. py_isdigit c"
    and "rest = [] \<or> \<not> py_isdigit (hd rest)"
  shows "match_here (Group 1 digit1) pos prev (ds @ rest)
         = Some \<lparr>m_start = pos, m_end = pos + length ds, m_groups = [(1, ds)]\<rparr>"
proof -
  from assms(1) obtain d ds' where ds: "ds = d # ds'" by (cases ds) auto
  with assms(2) have d: "py_isdigit d" and ds': "\<forall>c \<in> set ds'. py_isdigit c" by simp_all
  obtain p tl where "bt (Star (Sym Digit)) ([], Some d, ds' @ rest) = ([], p, rest) # tl"
    using bt_digits [OF ds' assms(3)] by blast
  then show ?thesis
    using d by (simp add: match_here_def digit1_def plus_def ds del: One_nat_def)
qed

lemma match_here_no_digit:
  "s = [] \<or> \<not> py_isdigit (hd s) \<Longrightarrow> match_here (Group 1 digit1) pos prev s = None"
  by (cases s) (auto simp: match_here_def digit1_def plus_def simp del: One_nat_def)

lemma search_from_no_digit:
  "\<forall>c \<in> set s. \<not> py_isdigit c \<Longrightarrow> search_from (Group 1 digit1) pos prev s = None"
  by (induction s arbitrary: pos prev) (simp_all add: match_here_no_digit del: One_nat_def)

lemma search_from_digits:
  assumes "\<forall>c \<in> set pre. \<not> py_isdigit c"
    and "ds \<noteq> []" and "\<forall>c \<in> set ds. py_isdigit c"
    and "rest = [] \<or> \<not> py_isdigit (hd rest)"
  shows "\<exists>m. search_from (Group 1 digit1) pos prev (pre @ ds @ rest) = Some m
             \<and> m_groups m = [(1, ds)]"
  using assms(1)
proof (induction pre arbitrary: pos prev)
  case Nil
  have "match_here (Group 1 digit1) pos prev (ds @ rest)
      = Some \<lparr>m_start = pos, m_end = pos + length ds, m_groups = [(1, ds)]\<rparr>"
    by (rule match_here_digits [OF assms(2,3,4)])
  then show ?case using assms(2) by (cases ds) (auto simp del: One_nat_def)
next
  case (Cons c pre)
  then have "match_here (Group 1 digit1) pos prev (c # pre @ ds @ rest) = None"
    by (intro match_here_no_digit) simp
  then show ?case using Cons by (simp del: One_nat_def)
qed

lemma extract_gas_value_none:
  "\<forall>c \<in> set s. \<not> py_isdigit c \<Longrightarrow> extract_gas_value s = 0"
  by (simp add: extract_gas_value_def re_search_def search_from_no_digit del: One_nat_def)

lemma extract_gas_value_first_run:
  assumes "\<forall>c \<in> set pre. \<not> py_isdigit c"
    and "ds \<noteq> []" and "\<forall>c \<in> set ds. py_isdigit c"
    and "rest = [] \<or> \<not> py_isdigit (hd rest)"
  shows "extract_gas_value (pre @ ds @ rest) = py_int ds"
proof -
  obtain m where "search_from (Group 1 digit1) 0 None (pre @ ds @ rest) = Some m"
    and "m_groups m = [(1, ds)]"
    using search_from_digits [OF assms] by blast
  then show ?thesis
    by (simp add: extract_gas_value_def re_search_def group_def del: One_nat_def)
qed

text \<open>
  C8. For every solidity source, the \<open>potential_savings\<close> that \<open>GasAnalyzer.analyze\<close>
  reports is computed from the optimization entries it returns: the sum over all of
  them of the number extracted from the entry's savings text, rendered as
  \<open><sum> gas per transaction\<close> when the sum is positive and as \<open>N/A\<close> when it is zero.
  The number extracted from a text is its first run of decimal digits read as a number;
  a text without a digit contributes 0.
\<close>

theorem gas_potential_savings:
  "potential_savings (GasAnalyzer_analyze code ''solidity'')
     = (if 0 < total_savings_of (optimizations (GasAnalyzer_analyze code ''solidity''))
        then py_str (total_savings_of (optimizations (GasAnalyzer_analyze code ''solidity'')))
             @ '' gas per transaction''
        else ''N/A'')
   \<and> ((\<forall>c \<in> set s. \<not> py_isdigit c) \<longrightarrow> extract_gas_value s = 0)
   \<and> ((\<forall>c \<in> set pre. \<not> py_isdigit c) \<and> ds \<noteq> [] \<and> (\<forall>c \<in> set ds. py_isdigit c)
        \<and> (rest = [] \<or> \<not> py_isdigit (hd rest))
      \<longrightarrow> extract_gas_value (pre @ ds @ rest) = py_int ds)"
proof -
  have "potential_savings (GasAnalyzer_analyze code ''solidity'')
     = (if 0 < total_savings_of (optimizations (GasAnalyzer_analyze code ''solidity''))
        then py_str (total_savings_of (optimizations (GasAnalyzer_analyze code ''solidity'')))
             @ '' gas per transaction''
        else ''N/A'')"
    by (simp only: GasAnalyzer_analyze_def Let_def total_savings_of_def simp_thms if_False
        gas_report.simps)
  then show ?thesis
    using extract_gas_value_none [of s] extract_gas_value_first_run [of pre ds rest]
    by blast
qed

theorem gas_potential_savings_witness:
  "potential_savings (GasAnalyzer_analyze ''uint total = 0; string name;'' ''solidity'')
     = ''1005 gas per transaction''
   \<and> potential_savings (GasAnalyzer_analyze ''contract Empty {}'' ''solidity'') = ''N/A''
   \<and> extract_gas_value ''no estimate'' = 0
   \<and> extract_gas_value ''~200 gas per call'' = 200"
proof -
  have o1: "map opt_savings (optimizations (GasAnalyzer_analyze ''uint total = 0; string name;'' ''solidity''))
      = [''~5 gas'', ''Variable, typically 1000+ gas'']"
    by code_simp
  have o2: "optimizations (GasAnalyzer_analyze ''contract Empty {}'' ''solidity'') = []"
    by code_simp
  have t1: "total_savings_of (optimizations (GasAnalyzer_analyze ''uint total = 0; string name;'' ''solidity''))
      = 1005"
  proof -
    have "total_savings_of (optimizations (GasAnalyzer_analyze ''uint total = 0; string name;'' ''solidity''))
      = sum_list (map extract_gas_value (map opt_savings
          (optimizations (GasAnalyzer_analyze ''uint total = 0; string name;'' ''solidity''))))"
      by (simp add: total_savings_of_def comp_def)
    also have "\<dots> = sum_list (map extract_gas_value [''~5 gas'', ''Variable, typically 1000+ gas''])"
      unfolding o1 ..
    also have "\<dots> = 1005" by code_simp
    finally show ?thesis .
  qed
  have s1005: "py_str 1005 = ''1005''" by code_simp
  have a: "potential_savings (GasAnalyzer_analyze ''uint total = 0; string name;'' ''solidity'')
     = ''1005 gas per transaction''"
    using gas_potential_savings [of "''uint total = 0; string name;''" "[]" "[]" "[]" "[]", THEN conjunct1]
    unfolding t1 s1005 by simp
  have b: "potential_savings (GasAnalyzer_analyze ''contract Empty {}'' ''solidity'') = ''N/A''"
    using gas_potential_savings [of "''contract Empty {}''" "[]" "[]" "[]" "[]", THEN conjunct1]
    unfolding o2 by (simp add: total_savings_of_def)
  have c: "extract_gas_value ''no estimate'' = 0"
    using gas_potential_savings [of "[]" "''no estimate''" "[]" "[]" "[]", THEN conjunct2, THEN conjunct1]
    by (simp add: py_isdigit_def)
  have d: "extract_gas_value (''~'' @ ''200'' @ '' gas per call'') = py_int ''200''"
    using gas_potential_savings [of "[]" "[]" "''~''" "''200''" "'' gas per call''",
        THEN conjunct2, THEN conjunct2]
    by (simp add: py_isdigit_def)
  have e: "py_int ''200'' = 200" by (simp add: py_int_def digit_val_def)
  from a b c d e show ?thesis by simp
qed

section \<open>Properties of the response normalization\<close>

lemma lower_char_not_upper: "\<not> py_isupper (lower_char c)"
proof (cases "py_isupper c")
  case False
  then show ?thesis by (simp add: lower_char_def)
next
  case True
  define n where "n = (of_char c :: nat)"
  from True have range: "(65 \<le> n \<and> n \<le> 90) \<or> (192 \<le> n \<and> n \<le> 214) \<or> (216 \<le> n \<and> n \<le> 222)"
    by (simp add: py_isupper_def Let_def n_def)
  then have "(n + 32) mod 256 = n + 32" by auto
  then have "(of_char (char_of (n + 32) :: char) :: nat) = n + 32"
    by (simp add: of_char_of)
  with range have "\<not> py_isupper (char_of (n + 32))"
    by (auto simp: py_isupper_def Let_def)
  with True show ?thesis by (simp add: lower_char_def n_def)
qed

lemma py_lower_no_upper: "\<forall>c \<in> set (py_lower s). \<not> py_isupper c"
  by (simp add: py_lower_def lower_char_not_upper)

lemma json_lower_Inr: "json_lower v = Inr l \<Longrightarrow> \<exists>s. v = JStr s \<and> l = py_lower s"
  by (cases v) auto

lemma py_lower_info: "py_lower ''info'' = ''info''"
  by code_simp

lemma py_lower_HIGH: "py_lower ''HIGH'' = ''high''"
  by code_simp

text \<open>The capital E with acute accent (0xC9) is lower-cased to 0xE9, as \<open>str.lower\<close>
  does.\<close>

lemma py_lower_latin1: "py_lower [CHR 0xC9, CHR ''x''] = [CHR 0xE9, CHR ''x'']"
  by code_simp

lemma normalize_vuln_fields:
  assumes "normalize_vuln n (JObj kvs) = Inr nv"
  shows "\<exists>sev. json_lower (dict_get kvs ''severity'' (JStr ''info'')) = Inr sev
     \<and> nv_severity nv = sev \<and> nv_detected_by nv = ''ai''
     \<and> nv_confidence nv = dict_get kvs ''confidence'' (JNum 85)"
proof (cases "json_lower (dict_get kvs ''severity'' (JStr ''info''))")
  case (Inl e)
  with assms show ?thesis by simp
next
  case sev: (Inr sev)
  show ?thesis
  proof (cases "json_lower (dict_get kvs ''exploitability'' (JStr ''moderate''))")
    case (Inl e)
    with assms sev show ?thesis by simp
  next
    case (Inr expl)
    with assms sev have "nv_severity nv = sev \<and> nv_detected_by nv = ''ai''
       \<and> nv_confidence nv = dict_get kvs ''confidence'' (JNum 85)"
      by (simp del: One_nat_def) auto
    with sev show ?thesis by simp
  qed
qed

lemma normalize_vuln_Inr:
  assumes "normalize_vuln n vuln = Inr nv"
  shows "normalized_from vuln nv"
proof (cases vuln)
  case (JObj kvs)
  from assms obtain sev
    where sev: "json_lower (dict_get kvs ''severity'' (JStr ''info'')) = Inr sev"
      and nv: "nv_severity nv = sev" "nv_detected_by nv = ''ai''"
              "nv_confidence nv = dict_get kvs ''confidence'' (JNum 85)"
    unfolding JObj using normalize_vuln_fields by blast
  from json_lower_Inr [OF sev] obtain s
    where s: "dict_get kvs ''severity'' (JStr ''info'') = JStr s" "sev = py_lower s"
    by blast
  have shape: "map_of kvs ''severity'' = None \<or> (\<exists>s. map_of kvs ''severity'' = Some (JStr s))"
    using s(1) by (auto simp: dict_get_def split: option.splits)
  have dflt: "map_of kvs ''severity'' = None \<longrightarrow> nv_severity nv = ''info''"
    using s nv(1) py_lower_info by (auto simp: dict_get_def)
  have given: "\<forall>t. map_of kvs ''severity'' = Some (JStr t) \<longrightarrow> nv_severity nv = py_lower t"
    using s nv(1) by (auto simp: dict_get_def)
  have low: "\<forall>c \<in> set (nv_severity nv). \<not> py_isupper c"
    unfolding nv(1) s(2) by (rule py_lower_no_upper)
  have conf: "(map_of kvs ''confidence'' = None \<longrightarrow> nv_confidence nv = JNum 85)
     \<and> (\<forall>c. map_of kvs ''confidence'' = Some c \<longrightarrow> nv_confidence nv = c)"
    unfolding nv(3) by (simp add: dict_get_def)
  show ?thesis
    unfolding normalized_from_def JObj
    by (intro exI [of _ kvs] conjI refl nv(2) shape dflt given low
        conf [THEN conjunct1] conf [THEN conjunct2])
qed (use assms in simp_all)

lemma normalize_vulns_all2:
  "normalize_vulns acc vulns = Inr out \<Longrightarrow>
     \<exists>new. out = acc @ new \<and> list_all2 normalized_from vulns new"
proof (induction vulns arbitrary: acc)
  case Nil
  then show ?case by simp
next
  case (Cons vuln rest)
  show ?case
  proof (cases "normalize_vuln (length acc) vuln")
    case (Inl e)
    with Cons.prems show ?thesis by simp
  next
    case (Inr nv)
    with Cons.prems have rest: "normalize_vulns (acc @ [nv]) rest = Inr out" by simp
    from Cons.IH [OF rest] obtain new
      where out: "out = (acc @ [nv]) @ new" and all2: "list_all2 normalized_from rest new"
      by blast
    have "out = acc @ (nv # new)" using out by simp
    moreover have "list_all2 normalized_from (vuln # rest) (nv # new)"
      using normalize_vuln_Inr [OF Inr] all2 by simp
    ultimately show ?thesis by blast
  qed
qed

lemma normalize_response_all2:
  assumes "normalize_response response = Inr normalized"
  shows "\<exists>vulns. json_iter (dict_get response ''vulnerabilities'' (JList [])) = Inr vulns
           \<and> list_all2 normalized_from vulns (nr_vulnerabilities normalized)"
proof (cases "json_lower (dict_get response ''overall_risk'' (JStr ''unknown''))")
  case (Inl e)
  with assms show ?thesis by (simp add: normalize_response_def)
next
  case risk: (Inr risk)
  show ?thesis
  proof (cases "json_iter (dict_get response ''vulnerabilities'' (JList []))")
    case (Inl e)
    with assms risk show ?thesis by (simp add: normalize_response_def)
  next
    case vulns: (Inr vulns)
    show ?thesis
    proof (cases "normalize_vulns [] vulns")
      case (Inl e)
      with assms risk vulns show ?thesis by (simp add: normalize_response_def)
    next
      case (Inr out)
      note e = assms [unfolded normalize_response_def risk vulns Inr sum.case, THEN Inr_inject]
      have "nr_vulnerabilities normalized = out"
        using arg_cong [OF e, of nr_vulnerabilities]
        by (simp only: normalized_response.select_convs)
      moreover from normalize_vulns_all2 [OF Inr] have "list_all2 normalized_from vulns out"
        by simp
      ultimately show ?thesis using vulns by simp
    qed
  qed
qed

lemma json_lower_returns:
  "string_or_absent kvs key \<Longrightarrow> \<exists>l. json_lower (dict_get kvs key (JStr d)) = Inr l"
  by (auto simp: string_or_absent_def dict_get_def split: option.splits json.splits)

lemma normalize_vuln_returns:
  assumes "well_formed_vuln vuln"
  shows "\<exists>nv. normalize_vuln n vuln = Inr nv"
proof -
  from assms obtain kvs where v: "vuln = JObj kvs"
    and s: "string_or_absent kvs ''severity''" and x: "string_or_absent kvs ''exploitability''"
    by (auto simp: well_formed_vuln_def split: json.splits)
  obtain sev where sev: "json_lower (dict_get kvs ''severity'' (JStr ''info'')) = Inr sev"
    using json_lower_returns [OF s] by blast
  obtain expl where expl: "json_lower (dict_get kvs ''exploitability'' (JStr ''moderate'')) = Inr expl"
    using json_lower_returns [OF x] by blast
  show ?thesis unfolding v by (simp add: sev expl)
qed

lemma normalize_vulns_returns:
  "list_all well_formed_vuln vulns \<Longrightarrow> \<exists>out. normalize_vulns acc vulns = Inr out"
proof (induction vulns arbitrary: acc)
  case Nil
  show ?case by simp
next
  case (Cons vuln rest)
  then have wf: "well_formed_vuln vuln" and rest: "list_all well_formed_vuln rest" by simp_all
  obtain nv where nv: "normalize_vuln (length acc) vuln = Inr nv"
    using normalize_vuln_returns [OF wf] by blast
  from Cons.IH [OF rest, of "acc @ [nv]"] show ?case by (simp add: nv)
qed

text \<open>The normalization returns on every well-formed response; on any other it raises,
  and the caller's \<open>except\<close> answers with a response that has no vulnerability record.\<close>

lemma normalize_response_returns:
  assumes "well_formed_response response"
  shows "\<exists>normalized. normalize_response response = Inr normalized"
proof -
  from assms have r: "string_or_absent response ''overall_risk''"
    by (simp add: well_formed_response_def)
  obtain risk where risk: "json_lower (dict_get response ''overall_risk'' (JStr ''unknown'')) = Inr risk"
    using json_lower_returns [OF r] by blast
  from assms obtain vulns
    where it: "json_iter (dict_get response ''vulnerabilities'' (JList [])) = Inr vulns"
      and wf: "list_all well_formed_vuln vulns"
    by (auto simp: well_formed_response_def dict_get_def split: option.splits json.splits)
  obtain out where out: "normalize_vulns [] vulns = Inr out"
    using normalize_vulns_returns [OF wf] by blast
  show ?thesis by (simp add: normalize_response_def risk it out)
qed

text \<open>
  C9, as the specification states it: every vulnerability record of the normalized
  output has its confidence defaulted to 85, and its severity to \<open>info\<close>, when the
  record of the response gives none. The defaults are those of \<open>dict.get\<close>, which apply
  only when the key is missing. A record that gives \<open>"confidence": null\<close> is normalized
  to a record whose confidence is \<open>None\<close>, not 85; and on a record that gives
  \<open>"severity": null\<close> the call of \<open>lower\<close> raises \<open>AttributeError\<close>, so that there is no
  normalized output at all.
\<close>

theorem normalize_response_null_counterexample:
  "well_formed_response [(''vulnerabilities'', JList [JObj [(''confidence'', JNull)]])]
   \<and> (case normalize_response [(''vulnerabilities'', JList [JObj [(''confidence'', JNull)]])] of
        Inl e \<Rightarrow> []
      | Inr n \<Rightarrow> map (\<lambda>nv. (nv_severity nv, nv_detected_by nv, nv_confidence nv))
                   (nr_vulnerabilities n))
     = [(''info'', ''ai'', JNull)]
   \<and> normalize_response [(''vulnerabilities'', JList [JObj [(''severity'', JNull)]])]
     = Inl AttributeError"
  by (simp add: normalize_response_def dict_get_def well_formed_response_def
      well_formed_vuln_def string_or_absent_def py_lower_info)

text \<open>
  C9, amended. For every parsed response that \<open>_normalize_response\<close> normalizes, the
  vulnerability records of the output are made from those of the response, one for one
  and in order, and every one of them has \<open>detected_by\<close> equal to \<open>ai\<close>, a severity with no
  upper-case letter that is the lower-cased severity string of the record, or \<open>info\<close>
  when the record has no \<open>severity\<close> key, and as confidence the value the record holds
  under \<open>confidence\<close>, whatever it is, or 85 when the record has no \<open>confidence\<close> key. The
  normalization returns such an output for every well-formed response.
\<close>

theorem normalize_response_vulnerabilities:
  "(normalize_response response = Inr normalized \<longrightarrow>
      (\<exists>vulns. json_iter (dict_get response ''vulnerabilities'' (JList [])) = Inr vulns
           \<and> list_all2 normalized_from vulns (nr_vulnerabilities normalized)))
   \<and> (well_formed_response response \<longrightarrow>
      (\<exists>n. normalize_response response = Inr n))"
  using normalize_response_all2 [of response normalized] normalize_response_returns [of response]
  by blast

theorem normalize_response_vulnerabilities_witness:
  "(case normalize_response
      [(''summary'', JStr ''two issues''),
       (''vulnerabilities'',
          JList [JObj [(''title'', JStr ''Reentrancy''), (''severity'', JStr ''HIGH'')],
                 JObj [(''confidence'', JNum 40)]])] of
      Inl e \<Rightarrow> []
    | Inr n \<Rightarrow> map (\<lambda>nv. (nv_severity nv, nv_detected_by nv, nv_confidence nv))
                 (nr_vulnerabilities n))
   = [(''high'', ''ai'', JNum 85), (''info'', ''ai'', JNum 40)]"
proof -
  let ?r = "[(''summary'', JStr ''two issues''),
       (''vulnerabilities'',
          JList [JObj [(''title'', JStr ''Reentrancy''), (''severity'', JStr ''HIGH'')],
                 JObj [(''confidence'', JNum 40)]])]"
  have "\<exists>n. normalize_response ?r = Inr n"
    by (simp add: normalize_response_def dict_get_def)
  then obtain n where n: "normalize_response ?r = Inr n" by blast
  from normalize_response_vulnerabilities [of ?r n, THEN conjunct1, THEN mp, OF n] obtain vulns
    where it: "json_iter (dict_get ?r ''vulnerabilities'' (JList [])) = Inr vulns"
      and all2: "list_all2 normalized_from vulns (nr_vulnerabilities n)"
    by blast
  from it have vulns: "vulns = [JObj [(''title'', JStr ''Reentrancy''), (''severity'', JStr ''HIGH'')],
                 JObj [(''confidence'', JNum 40)]]"
    by (simp add: dict_get_def)
  from all2 obtain a b where ab: "nr_vulnerabilities n = [a, b]"
    and a: "normalized_from (JObj [(''title'', JStr ''Reentrancy''), (''severity'', JStr ''HIGH'')]) a"
    and b: "normalized_from (JObj [(''confidence'', JNum 40)]) b"
    unfolding vulns by (auto simp: list_all2_Cons1)
  note up = py_lower_HIGH
  from a have a': "nv_severity a = ''high''" "nv_detected_by a = ''ai''" "nv_confidence a = JNum 85"
    unfolding normalized_from_def by (simp_all add: up)
  from b have b': "nv_severity b = ''info''" "nv_detected_by b = ''ai''" "nv_confidence b = JNum 40"
    unfolding normalized_from_def by simp_all
  show ?thesis
    unfolding n by (simp add: ab a' b')
qed

end
